theory Spec2Isabelle
  imports Main
begin

section \<open>The invocation context of discord/ext/commands/context.py\<close>

text \<open>
  The class \<^verbatim>\<open>Context\<close> is embedded with explicit state passing. Python objects that the
  code reaches through more than one name (the \<^verbatim>\<open>StringView\<close> held in the local variable
  \<^verbatim>\<open>view\<close>, the list held in \<^verbatim>\<open>invoked_parents\<close>, the help command and its copy) live in
  stores indexed by references, so that a write through one name is seen through the other.
  Calls into code outside the file (the command's own \<^verbatim>\<open>reinvoke\<close>, the transports, the help
  command's methods) go through one handler \<open>ext\<close>, a parameter of every operation: it may
  change the whole state and may raise.
\<close>

subsection \<open>Values, errors, objects\<close>

type_synonym ref = nat

text \<open>A Python \<^verbatim>\<open>str\<close> is a sequence of code points; \<^verbatim>\<open>len\<close> counts them.\<close>

type_synonym str = "nat list"

datatype pyval = VNone | VBool bool | VInt int | VStr str | VRef ref

type_synonym kwargs = "string \<rightharpoonup> pyval"

text \<open>
  \<open>CommandError\<close> stands for \<^verbatim>\<open>CommandError\<close> and its subclasses, \<open>OtherError\<close> for every
  other exception; the number names the exception object.
\<close>

datatype error = ValueError | TypeError | CommandError nat | OtherError nat

record string_view =
  index :: int
  previous :: int
  buffer :: str

text \<open>\<^verbatim>\<open>interaction.response\<close>: the attribute \<^verbatim>\<open>responded_at\<close> (microseconds on the UTC
  clock) and what \<^verbatim>\<open>is_done()\<close> answers.\<close>

record interaction_response =
  responded_at :: "int option"
  is_done :: bool

record message_obj =
  message_guild :: "ref option"
  message_channel :: ref
  message_author :: ref

text \<open>
  What the file reads of a command: its \<^verbatim>\<open>root_parent\<close>, its \<^verbatim>\<open>qualified_name\<close>, and whether
  it is an instance of \<^verbatim>\<open>Group\<close>. A command object counts as true in a condition.
\<close>

record command_obj =
  root_parent :: "ref option"
  qualified_name :: str
  is_group :: bool

datatype context_ref = This_context | Other_context nat

record help_obj =
  help_context :: "context_ref option"
  settings :: pyval

record bot =
  user :: ref
  help_command :: "ref option"
  get_cog :: "str \<Rightarrow> ref option"
  get_command :: "str \<Rightarrow> ref option"

record Context =
  message :: ref
  ctx_args :: "pyval list"
  ctx_kwargs :: kwargs
  prefix :: "str option"
  command :: "ref option"
  view :: ref
  invoked_with :: "str option"
  invoked_parents :: ref
  invoked_subcommand :: "ref option"
  subcommand_passed :: "str option"
  command_failed :: bool
  interaction :: "interaction_response option"
  guild_cache :: "ref option option"
  channel_cache :: "ref option"
  author_cache :: "ref option"
  me_cache :: "ref option"

record state =
  ctx :: Context
  the_bot :: bot
  views :: "ref \<Rightarrow> string_view"
  list_objs :: "ref \<Rightarrow> str list"
  help_objs :: "ref \<Rightarrow> help_obj"
  messages :: "ref \<Rightarrow> message_obj"
  commands :: "ref \<Rightarrow> command_obj"
  cog_names :: "ref \<Rightarrow> str"
  guild_me :: "ref \<Rightarrow> ref"
  next_ref :: ref

subsection \<open>Calls that leave the file\<close>

datatype call =
    Command_reinvoke ref bool
  | Channel_send "str option" kwargs
  | Response_defer pyval
  | Response_send_message "str option" pyval kwargs
  | Followup_send "str option" pyval kwargs
  | Prepare_help_command ref "str option"
  | Get_bot_mapping ref
  | Send_bot_help ref pyval
  | Send_cog_help ref ref
  | Send_group_help ref ref
  | Send_command_help ref ref
  | On_help_command_error ref error

type_synonym 'a outcome = "(error + 'a) \<times> state"

type_synonym handler = "call \<Rightarrow> state \<Rightarrow> pyval outcome"

subsection \<open>Context.reinvoke\<close>

text \<open>The empty list literal \<^verbatim>\<open>[]\<close> makes a new list object.\<close>

definition new_list :: "state \<Rightarrow> ref \<times> state" where
  "new_list s = (next_ref s, s\<lparr>list_objs := (list_objs s)(next_ref s := []), next_ref := Suc (next_ref s)\<rparr>)"

text \<open>
  Lines 235 to 242: the choice of the command to call (\<^verbatim>\<open>cmd.root_parent or cmd\<close>) and, for
  a restart, the rewinding of the view behind the prefix (\<^verbatim>\<open>len(self.prefix or "")\<close>).
  \<open>get_word\<close> is \<^verbatim>\<open>StringView.get_word\<close>, of a class outside the file: it reads a word at
  the cursor and moves the cursor.
\<close>

definition reinvoke_target ::
  "(string_view \<Rightarrow> str \<times> string_view) \<Rightarrow> bool \<Rightarrow> ref \<Rightarrow> ref \<Rightarrow> state \<Rightarrow> ref \<times> state" where
  "reinvoke_target get_word restart cmd v s =
     (if restart then
        let to_call = (case root_parent (commands s cmd) of None \<Rightarrow> cmd | Some r \<Rightarrow> r);
            s1 = s\<lparr>views := (views s)(v := (views s v)
                    \<lparr>index := int (length (case prefix (ctx s) of None \<Rightarrow> [] | Some p \<Rightarrow> p))\<rparr>)\<rparr>;
            s2 = s1\<lparr>views := (views s1)(v := (views s1 v)\<lparr>previous := 0\<rparr>)\<rparr>;
            (l, s3) = new_list s2;
            s4 = s3\<lparr>ctx := (ctx s3)\<lparr>invoked_parents := l\<rparr>\<rparr>;
            (word, vw) = get_word (views s4 v);
            s5 = s4\<lparr>views := (views s4)(v := vw)\<rparr>
        in (to_call, s5\<lparr>ctx := (ctx s5)\<lparr>invoked_with := Some word\<rparr>\<rparr>)
      else (cmd, s))"

text \<open>The \<^verbatim>\<open>finally\<close> block, lines 247 to 253, with the values saved in lines 229 to 233.\<close>

definition reinvoke_finally ::
  "ref \<Rightarrow> ref \<Rightarrow> int \<Rightarrow> int \<Rightarrow> str option \<Rightarrow> ref option \<Rightarrow> ref \<Rightarrow> str option \<Rightarrow> state \<Rightarrow> state" where
  "reinvoke_finally cmd v index0 previous0 invoked_with0 invoked_subcommand0 invoked_parents0
       subcommand_passed0 s =
     (let s1 = s\<lparr>ctx := (ctx s)\<lparr>command := Some cmd\<rparr>\<rparr>;
          s2 = s1\<lparr>views := (views s1)(v := (views s1 v)\<lparr>index := index0\<rparr>)\<rparr>;
          s3 = s2\<lparr>views := (views s2)(v := (views s2 v)\<lparr>previous := previous0\<rparr>)\<rparr>
      in s3\<lparr>ctx := (ctx s3)\<lparr>invoked_with := invoked_with0,
                             invoked_subcommand := invoked_subcommand0,
                             invoked_parents := invoked_parents0,
                             subcommand_passed := subcommand_passed0\<rparr>\<rparr>)"

definition reinvoke ::
  "(string_view \<Rightarrow> str \<times> string_view) \<Rightarrow> handler \<Rightarrow> bool \<Rightarrow> bool \<Rightarrow> state \<Rightarrow> unit outcome" where
  "reinvoke get_word ext call_hooks restart s =
     (case command (ctx s) of
        None \<Rightarrow> (Inl ValueError, s)
      | Some cmd \<Rightarrow>
          let v = view (ctx s);
              index0 = index (views s v);
              previous0 = previous (views s v);
              invoked_with0 = invoked_with (ctx s);
              invoked_subcommand0 = invoked_subcommand (ctx s);
              invoked_parents0 = invoked_parents (ctx s);
              subcommand_passed0 = subcommand_passed (ctx s);
              (to_call, s1) = reinvoke_target get_word restart cmd v s;
              (r, s2) = ext (Command_reinvoke to_call call_hooks) s1
          in (case r of Inl e \<Rightarrow> Inl e | Inr _ \<Rightarrow> Inr (),
              reinvoke_finally cmd v index0 previous0 invoked_with0 invoked_subcommand0
                invoked_parents0 subcommand_passed0 s2))"

subsection \<open>Context.valid\<close>

definition valid :: "Context \<Rightarrow> bool" where
  "valid c \<longleftrightarrow> prefix c \<noteq> None \<and> command c \<noteq> None"

subsection \<open>The cached properties guild, channel, author and me\<close>

text \<open>
  Modelled from the spec: the decorator \<^verbatim>\<open>discord.utils.cached_property\<close> is not in the
  file. The spec (4.1): on first access, compute the value, store it, and return the stored
  value on every subsequent access for the lifetime of the context instance. \<open>cache\<close> reads
  the slot of the property in the context (\<open>None\<close> while nothing is stored), \<open>store\<close>
  fills it, \<open>function\<close> is the decorated method.
\<close>

definition cached_property ::
  "(Context \<Rightarrow> 'a option) \<Rightarrow> ('a \<Rightarrow> Context \<Rightarrow> Context) \<Rightarrow> (state \<Rightarrow> 'a \<times> state) \<Rightarrow> state \<Rightarrow> 'a \<times> state" where
  "cached_property cache store function s =
     (case cache (ctx s) of
        Some x \<Rightarrow> (x, s)
      | None \<Rightarrow> let (x, s1) = function s in (x, s1\<lparr>ctx := store x (ctx s1)\<rparr>))"

definition guild :: "state \<Rightarrow> ref option \<times> state" where
  "guild = cached_property guild_cache (\<lambda>x c. c\<lparr>guild_cache := Some x\<rparr>)
     (\<lambda>s. (message_guild (messages s (message (ctx s))), s))"

definition channel :: "state \<Rightarrow> ref \<times> state" where
  "channel = cached_property channel_cache (\<lambda>x c. c\<lparr>channel_cache := Some x\<rparr>)
     (\<lambda>s. (message_channel (messages s (message (ctx s))), s))"

definition author :: "state \<Rightarrow> ref \<times> state" where
  "author = cached_property author_cache (\<lambda>x c. c\<lparr>author_cache := Some x\<rparr>)
     (\<lambda>s. (message_author (messages s (message (ctx s))), s))"

text \<open>
  \<^verbatim>\<open>self.guild.me if self.guild is not None else self.bot.user\<close>: the condition reads the
  property \<open>guild\<close>, which fills its slot; the second read of \<^verbatim>\<open>self.guild\<close> gives the
  stored object.
\<close>

definition me :: "state \<Rightarrow> ref \<times> state" where
  "me = cached_property me_cache (\<lambda>x c. c\<lparr>me_cache := Some x\<rparr>)
     (\<lambda>s. let (g, s1) = guild s
          in case g of None \<Rightarrow> (user (the_bot s1), s1) | Some r \<Rightarrow> (guild_me s1 r, s1))"

subsection \<open>Context.send and Context.reply\<close>

text \<open>\<^verbatim>\<open>timedelta(minutes=n)\<close> in microseconds, the resolution of \<^verbatim>\<open>datetime\<close>.\<close>

definition timedelta_minutes :: "int \<Rightarrow> int" where
  "timedelta_minutes n = n * 60 * 1000000"

text \<open>\<^verbatim>\<open>kwargs.pop(key, None)\<close>.\<close>

definition pop :: "string \<Rightarrow> kwargs \<Rightarrow> kwargs" where
  "pop key kw = kw(key := None)"

text \<open>Running one step after another: an exception of the first step ends the sequence.\<close>

definition and_then :: "(state \<Rightarrow> 'a outcome) \<Rightarrow> ('a \<Rightarrow> state \<Rightarrow> 'b outcome) \<Rightarrow> state \<Rightarrow> 'b outcome" where
  "and_then m f s = (case m s of (Inl e, s1) \<Rightarrow> (Inl e, s1) | (Inr x, s1) \<Rightarrow> f x s1)"

text \<open>
  \<open>utcnow\<close> is what \<^verbatim>\<open>discord.utils.utcnow()\<close> reads from the clock. The keyword arguments
  \<^verbatim>\<open>content\<close>, \<^verbatim>\<open>return_message\<close> and \<^verbatim>\<open>ephemeral\<close> are bound to the parameters of those
  names, the others are \<open>kwargs\<close>.
\<close>

definition send ::
  "handler \<Rightarrow> int \<Rightarrow> str option \<Rightarrow> bool \<Rightarrow> pyval \<Rightarrow> kwargs \<Rightarrow> state \<Rightarrow> pyval outcome" where
  "send ext utcnow content return_message ephemeral kwargs s =
     (case interaction (ctx s) of
        None \<Rightarrow> ext (Channel_send content kwargs) s
      | Some response \<Rightarrow>
          if (case responded_at response of
                None \<Rightarrow> False
              | Some t \<Rightarrow> utcnow - t \<ge> timedelta_minutes 15)
          then ext (Channel_send content kwargs) s
          else
            let kwargs1 = pop ''nonce'' kwargs;
                kwargs2 = pop ''stickers'' kwargs1;
                kwargs3 = pop ''reference'' kwargs2;
                kwargs4 = pop ''mention_author'' kwargs3
            in if \<not> (return_message \<or> is_done response
                      \<or> list_ex (\<lambda>arg. arg \<in> dom kwargs4) [''file'', ''files'', ''allowed_mentions''])
               then ext (Response_send_message content ephemeral kwargs4) s
               else if \<not> is_done response
               then and_then (ext (Response_defer ephemeral))
                      (\<lambda>_. ext (Followup_send content ephemeral kwargs4)) s
               else ext (Followup_send content ephemeral kwargs4) s)"

text \<open>
  \<^verbatim>\<open>self.send(content, return_message=return_message, reference=self.message, **kwargs)\<close>:
  a key \<^verbatim>\<open>reference\<close> in \<open>kwargs\<close> is a second value for that keyword, which Python refuses
  with a \<^verbatim>\<open>TypeError\<close> before \<open>send\<close> runs; a key \<^verbatim>\<open>ephemeral\<close> is bound to the parameter
  of \<open>send\<close> of that name.
\<close>

definition reply ::
  "handler \<Rightarrow> int \<Rightarrow> str option \<Rightarrow> bool \<Rightarrow> kwargs \<Rightarrow> state \<Rightarrow> pyval outcome" where
  "reply ext utcnow content return_message kwargs s =
     (if ''reference'' \<in> dom kwargs then (Inl TypeError, s)
      else send ext utcnow content return_message
             (case kwargs ''ephemeral'' of None \<Rightarrow> VBool False | Some e \<Rightarrow> e)
             ((pop ''ephemeral'' kwargs)(''reference'' \<mapsto> VRef (message (ctx s)))) s)"

subsection \<open>Context.send_help\<close>

text \<open>
  What \<^verbatim>\<open>send_help\<close> may be given: a string, a cog, a command or group (a group is a command
  whose \<open>is_group\<close> holds), \<^verbatim>\<open>None\<close>, or some other object, with or without an attribute
  \<^verbatim>\<open>qualified_name\<close>.
\<close>

datatype entity =
    Str_entity str
  | Cog_entity ref
  | Command_entity ref
  | Named_entity str
  | Object_entity
  | None_entity

text \<open>\<^verbatim>\<open>cmd.copy()\<close> makes a new object; \<open>copy\<close> gives its contents from the original's.\<close>

definition new_help :: "help_obj \<Rightarrow> state \<Rightarrow> ref \<times> state" where
  "new_help obj s = (next_ref s, s\<lparr>help_objs := (help_objs s)(next_ref s := obj), next_ref := Suc (next_ref s)\<rparr>)"

text \<open>\<^verbatim>\<open>bot.get_cog(entity) or bot.get_command(entity)\<close> for a string, the entity itself otherwise.\<close>

definition resolve_entity :: "state \<Rightarrow> entity \<Rightarrow> entity" where
  "resolve_entity s entity =
     (case entity of
        Str_entity name \<Rightarrow>
          (case get_cog (the_bot s) name of
             Some c \<Rightarrow> Cog_entity c
           | None \<Rightarrow> (case get_command (the_bot s) name of
                        Some c \<Rightarrow> Command_entity c
                      | None \<Rightarrow> None_entity))
      | _ \<Rightarrow> entity)"

text \<open>\<^verbatim>\<open>entity.qualified_name\<close>; \<open>None\<close> is the \<^verbatim>\<open>AttributeError\<close>.\<close>

definition entity_qualified_name :: "state \<Rightarrow> entity \<Rightarrow> str option" where
  "entity_qualified_name s entity =
     (case entity of
        Cog_entity c \<Rightarrow> Some (cog_names s c)
      | Command_entity c \<Rightarrow> Some (qualified_name (commands s c))
      | Named_entity n \<Rightarrow> Some n
      | _ \<Rightarrow> None)"

text \<open>\<^verbatim>\<open>try: ... except CommandError as e: await cmd.on_help_command_error(self, e)\<close>, after
  which the function returns \<^verbatim>\<open>None\<close>.\<close>

definition except_CommandError :: "handler \<Rightarrow> ref \<Rightarrow> (state \<Rightarrow> pyval outcome) \<Rightarrow> state \<Rightarrow> pyval outcome" where
  "except_CommandError ext cmd body s =
     (case body s of
        (Inl (CommandError n), s1) \<Rightarrow>
          and_then (ext (On_help_command_error cmd (CommandError n))) (\<lambda>_ s2. (Inr VNone, s2)) s1
      | (r, s1) \<Rightarrow> (r, s1))"

text \<open>Lines 367 and 368: \<^verbatim>\<open>cmd = cmd.copy()\<close> and \<^verbatim>\<open>cmd.context = self\<close>.\<close>

definition help_copy :: "(help_obj \<Rightarrow> help_obj) \<Rightarrow> ref \<Rightarrow> state \<Rightarrow> ref \<times> state" where
  "help_copy copy h s =
     (let (cmd, s1) = new_help (copy (help_objs s h)) s
      in (cmd, s1\<lparr>help_objs := (help_objs s1)(cmd := (help_objs s1 cmd)\<lparr>help_context := Some This_context\<rparr>)\<rparr>))"

text \<open>
  Lines 395 to 405, the body of the second \<^verbatim>\<open>try\<close>. \<open>wrap_callback\<close> is the function of
  that name of \<^verbatim>\<open>core.py\<close>, which is not in the file: it is a parameter.
\<close>

definition render_entity ::
  "((state \<Rightarrow> pyval outcome) \<Rightarrow> state \<Rightarrow> pyval outcome) \<Rightarrow> handler \<Rightarrow> ref \<Rightarrow> entity
     \<Rightarrow> state \<Rightarrow> pyval outcome" where
  "render_entity wrap_callback ext cmd entity s =
     (case entity of
        Cog_entity c \<Rightarrow> wrap_callback (ext (Send_cog_help cmd c)) s
      | Command_entity c \<Rightarrow>
          if is_group (commands s c)
          then wrap_callback (ext (Send_group_help cmd c)) s
          else wrap_callback (ext (Send_command_help cmd c)) s
      | _ \<Rightarrow> (Inr VNone, s))"

definition send_help ::
  "((state \<Rightarrow> pyval outcome) \<Rightarrow> state \<Rightarrow> pyval outcome) \<Rightarrow> handler \<Rightarrow> (help_obj \<Rightarrow> help_obj)
     \<Rightarrow> entity list \<Rightarrow> state \<Rightarrow> pyval outcome" where
  "send_help wrap_callback ext copy args s =
     (case help_command (the_bot s) of
        None \<Rightarrow> (Inr VNone, s)
      | Some h \<Rightarrow>
          let (cmd, s2) = help_copy copy h s
          in (case args of
                [] \<Rightarrow>
                  and_then (ext (Prepare_help_command cmd None))
                    (\<lambda>_. and_then (ext (Get_bot_mapping cmd))
                      (\<lambda>mapping. except_CommandError ext cmd
                         (wrap_callback (ext (Send_bot_help cmd mapping))))) s2
              | entity0 # _ \<Rightarrow>
                  let entity = resolve_entity s2 entity0
                  in if entity = None_entity then (Inr VNone, s2)
                     else (case entity_qualified_name s2 entity of
                             None \<Rightarrow> (Inr VNone, s2)
                           | Some name \<Rightarrow>
                               and_then (ext (Prepare_help_command cmd (Some name)))
                                 (\<lambda>_. except_CommandError ext cmd
                                    (render_entity wrap_callback ext cmd entity)) s2)))"

text \<open>
  The help command on which a call is made: the \<^verbatim>\<open>cmd\<close> of \<^verbatim>\<open>cmd.prepare_help_command(...)\<close>,
  of \<^verbatim>\<open>cmd.send_bot_help\<close> and of the other methods that \<open>send_help\<close> calls on it.
\<close>

definition receiver :: "call \<Rightarrow> ref option" where
  "receiver c =
     (case c of
        Prepare_help_command r _ \<Rightarrow> Some r
      | Get_bot_mapping r \<Rightarrow> Some r
      | Send_bot_help r _ \<Rightarrow> Some r
      | Send_cog_help r _ \<Rightarrow> Some r
      | Send_group_help r _ \<Rightarrow> Some r
      | Send_command_help r _ \<Rightarrow> Some r
      | On_help_command_error r _ \<Rightarrow> Some r
      | _ \<Rightarrow> None)"

text \<open>
  A computation keeps the help command object \<open>a\<close> when no run of it changes the object at
  \<open>a\<close> or the attribute \<^verbatim>\<open>bot.help_command\<close>.
\<close>

definition keeps_help :: "ref \<Rightarrow> (state \<Rightarrow> 'a outcome) \<Rightarrow> bool" where
  "keeps_help h f \<longleftrightarrow>
     (\<forall>t. help_objs (snd (f t)) h = help_objs t h
        \<and> help_command (the_bot (snd (f t))) = help_command (the_bot t))"

text \<open>A computation returns when no run of it raises; it raises only \<^verbatim>\<open>CommandError\<close> when
  every exception that leaves it is one.\<close>

definition returns :: "(state \<Rightarrow> 'a outcome) \<Rightarrow> bool" where
  "returns f \<longleftrightarrow> (\<forall>t. \<exists>x. fst (f t) = Inr x)"

definition raises_only_CommandError :: "(state \<Rightarrow> 'a outcome) \<Rightarrow> bool" where
  "raises_only_CommandError f \<longleftrightarrow> (\<forall>t e. fst (f t) = Inl e \<longrightarrow> (\<exists>n. e = CommandError n))"

subsection \<open>Concrete inputs\<close>

text \<open>
  A view that reads up to the next space (code point 32), as \<^verbatim>\<open>StringView.get_word\<close> does on
  single-spaced text.
\<close>

definition sample_get_word :: "string_view \<Rightarrow> str \<times> string_view" where
  "sample_get_word vw =
     (let word = takeWhile (\<lambda>c. c \<noteq> 32) (drop (nat (index vw)) (buffer vw))
      in (word, vw\<lparr>previous := index vw, index := index vw + int (length word)\<rparr>))"

text \<open>
  The message \<^verbatim>\<open>!a b\<close> after it has been parsed: prefix \<^verbatim>\<open>!\<close>, the group \<^verbatim>\<open>a\<close> (object 12),
  its subgroup \<^verbatim>\<open>b\<close> (object 2) as the command, the view (object 3) at the end of the text,
  the list \<^verbatim>\<open>['a']\<close> (object 4) as the invoked parents, no interaction, nothing cached. The
  bot's help command (object 6) still holds the context of an earlier invocation.
\<close>

definition sample_context :: Context where
  "sample_context =
     \<lparr>message = 1, ctx_args = [], ctx_kwargs = Map.empty, prefix = Some [33], command = Some 2,
      view = 3, invoked_with = Some [98], invoked_parents = 4, invoked_subcommand = None,
      subcommand_passed = None, command_failed = True, interaction = None,
      guild_cache = None, channel_cache = None, author_cache = None, me_cache = None\<rparr>"

definition sample_state :: state where
  "sample_state =
     \<lparr>ctx = sample_context,
      the_bot = \<lparr>user = 5, help_command = Some 6, get_cog = (\<lambda>_. None), get_command = (\<lambda>_. None)\<rparr>,
      views = (\<lambda>_. \<lparr>index = 4, previous = 3, buffer = [33, 97, 32, 98]\<rparr>),
      list_objs = (\<lambda>_. [[97]]),
      help_objs = (\<lambda>_. \<lparr>help_context = Some (Other_context 0), settings = VInt 1\<rparr>),
      messages = (\<lambda>_. \<lparr>message_guild = Some 7, message_channel = 8, message_author = 9\<rparr>),
      commands = (\<lambda>c. if c = 2 then \<lparr>root_parent = Some 12, qualified_name = [97, 32, 98], is_group = True\<rparr>
                      else \<lparr>root_parent = None, qualified_name = [97], is_group = True\<rparr>),
      cog_names = (\<lambda>_. []),
      guild_me = (\<lambda>_. 10),
      next_ref = 13\<rparr>"

text \<open>The same context with no command resolved.\<close>

definition unresolved_state :: state where
  "unresolved_state = sample_state\<lparr>ctx := sample_context\<lparr>command := None\<rparr>\<rparr>"

text \<open>The same bot with no help command.\<close>

definition helpless_state :: state where
  "helpless_state = sample_state\<lparr>the_bot := (the_bot sample_state)\<lparr>help_command := None\<rparr>\<rparr>"

text \<open>A slash-command context: the interaction was answered at time 0, or not yet.\<close>

definition answered_state :: state where
  "answered_state =
     sample_state\<lparr>ctx := sample_context\<lparr>interaction := Some \<lparr>responded_at = Some 0, is_done = True\<rparr>\<rparr>\<rparr>"

definition unanswered_state :: state where
  "unanswered_state =
     sample_state\<lparr>ctx := sample_context\<lparr>interaction := Some \<lparr>responded_at = None, is_done = False\<rparr>\<rparr>\<rparr>"

text \<open>The message has moved to a direct-message channel and lost its guild.\<close>

definition other_messages :: "ref \<Rightarrow> message_obj" where
  "other_messages = (\<lambda>_. \<lparr>message_guild = None, message_channel = 20, message_author = 21\<rparr>)"

text \<open>Keyword arguments: none, a file, a nonce, a reference.\<close>

definition no_kwargs :: kwargs where
  "no_kwargs = Map.empty"

definition file_kwargs :: kwargs where
  "file_kwargs = [''file'' \<mapsto> VRef 30]"

definition nonce_kwargs :: kwargs where
  "nonce_kwargs = [''nonce'' \<mapsto> VInt 31]"

definition reference_kwargs :: kwargs where
  "reference_kwargs = [''reference'' \<mapsto> VRef 32]"

text \<open>Collaborators that do nothing and return \<^verbatim>\<open>None\<close>.\<close>

definition quiet_ext :: handler where
  "quiet_ext c s = (Inr VNone, s)"

text \<open>Transports that answer with their own number: 0 for the channel, 1 for the initial
  response, 2 for the follow-up.\<close>

definition transport_tag :: handler where
  "transport_tag c s =
     (case c of
        Channel_send _ _ \<Rightarrow> (Inr (VInt 0), s)
      | Response_send_message _ _ _ \<Rightarrow> (Inr (VInt 1), s)
      | Followup_send _ _ _ \<Rightarrow> (Inr (VInt 2), s)
      | _ \<Rightarrow> (Inr VNone, s))"

text \<open>
  A command whose \<^verbatim>\<open>reinvoke\<close> records the name it was invoked with by
  \<^verbatim>\<open>ctx.invoked_parents.append(ctx.invoked_with)\<close>, a write into the list object itself.
\<close>

definition appending_ext :: handler where
  "appending_ext c s =
     (case c of
        Command_reinvoke _ _ \<Rightarrow>
          (Inr VNone,
           s\<lparr>list_objs := (list_objs s)(invoked_parents (ctx s) :=
                list_objs s (invoked_parents (ctx s))
                  @ [case invoked_with (ctx s) of None \<Rightarrow> [] | Some w \<Rightarrow> w])\<rparr>)
      | _ \<Rightarrow> (Inr VNone, s))"

text \<open>
  Transports that answer with the \<^verbatim>\<open>reference\<close> they are given, and with \<^verbatim>\<open>None\<close> when
  they are given none.
\<close>

definition echo_reference :: handler where
  "echo_reference c s =
     (case c of
        Channel_send _ kw \<Rightarrow> (Inr (case kw ''reference'' of None \<Rightarrow> VNone | Some v \<Rightarrow> v), s)
      | Response_send_message _ _ kw \<Rightarrow> (Inr (case kw ''reference'' of None \<Rightarrow> VNone | Some v \<Rightarrow> v), s)
      | Followup_send _ _ kw \<Rightarrow> (Inr (case kw ''reference'' of None \<Rightarrow> VNone | Some v \<Rightarrow> v), s)
      | _ \<Rightarrow> (Inr VNone, s))"

text \<open>
  A help command whose methods all leave a mark on the object they are called on: they set
  its \<open>settings\<close> to 99.
\<close>

definition marking_ext :: handler where
  "marking_ext c s =
     (case receiver c of
        None \<Rightarrow> (Inr VNone, s)
      | Some r \<Rightarrow> (Inr VNone, s\<lparr>help_objs := (help_objs s)(r := (help_objs s r)\<lparr>settings := VInt 99\<rparr>)\<rparr>))"

text \<open>The same, for the methods of one help command object only.\<close>

definition marking_only :: "ref \<Rightarrow> handler" where
  "marking_only a c s = (if receiver c = Some a then marking_ext c s else (Inr VNone, s))"

text \<open>A help command whose \<^verbatim>\<open>prepare_help_command\<close> raises a \<^verbatim>\<open>CommandError\<close>.\<close>

definition prepare_fails :: handler where
  "prepare_fails c s =
     (case c of
        Prepare_help_command _ _ \<Rightarrow> (Inl (CommandError 7), s)
      | _ \<Rightarrow> (Inr VNone, s))"

text \<open>A help command whose \<^verbatim>\<open>send_bot_help\<close> and \<^verbatim>\<open>send_group_help\<close> raise a
  \<^verbatim>\<open>CommandError\<close>.\<close>

definition render_fails :: handler where
  "render_fails c s =
     (case c of
        Send_bot_help _ _ \<Rightarrow> (Inl (CommandError 7), s)
      | Send_group_help _ _ \<Rightarrow> (Inl (CommandError 7), s)
      | _ \<Rightarrow> (Inr VNone, s))"

text \<open>A \<open>wrap_callback\<close> that runs the callback as it is.\<close>

definition plain_wrap :: "(state \<Rightarrow> pyval outcome) \<Rightarrow> state \<Rightarrow> pyval outcome" where
  "plain_wrap f = f"

text \<open>A \<open>wrap_callback\<close> that lets a \<^verbatim>\<open>CommandError\<close> pass and turns every other exception
  of the callback into one.\<close>

definition converting_wrap :: "(state \<Rightarrow> pyval outcome) \<Rightarrow> state \<Rightarrow> pyval outcome" where
  "converting_wrap f s =
     (case f s of
        (Inl (CommandError n), t) \<Rightarrow> (Inl (CommandError n), t)
      | (Inl _, t) \<Rightarrow> (Inl (CommandError 0), t)
      | (Inr x, t) \<Rightarrow> (Inr x, t))"

text \<open>A \<open>copy\<close> that makes a help command with the same settings and no context.\<close>

definition same_settings :: "help_obj \<Rightarrow> help_obj" where
  "same_settings obj = obj\<lparr>help_context := None\<rparr>"

section \<open>Properties\<close>

subsection \<open>Context.send: the choice of the transport\<close>

text \<open>
  Claim C1, as the code has it. \<open>send\<close> goes to the plain channel transport, with \<open>content\<close>
  and every keyword option unchanged, and returns its result, when the context has no
  interaction, and when the first response of the interaction is recorded and lies 15
  minutes or more in the past. A first response recorded exactly 15 minutes ago counts as
  expired. While no first response is recorded or less than 15 minutes have passed since,
  \<open>send\<close> makes one of the three calls of the interactive transport.
\<close>

theorem send_plain_transport:
  "(interaction (ctx s) = None \<longrightarrow>
      send ext utcnow content return_message ephemeral kwargs s
        = ext (Channel_send content kwargs) s)
   \<and> (interaction (ctx s) = Some r \<and> responded_at r = Some t
        \<and> utcnow - t \<ge> timedelta_minutes 15 \<longrightarrow>
        send ext utcnow content return_message ephemeral kwargs s
          = ext (Channel_send content kwargs) s)
   \<and> (interaction (ctx s) = Some r \<and> responded_at r = Some t
        \<and> utcnow - t = timedelta_minutes 15 \<longrightarrow>
        send ext utcnow content return_message ephemeral kwargs s
          = ext (Channel_send content kwargs) s)
   \<and> (interaction (ctx s) = Some r
        \<and> (responded_at r = None \<or> responded_at r = Some t \<and> utcnow - t < timedelta_minutes 15) \<longrightarrow>
        (let kwargs' = pop ''mention_author'' (pop ''reference'' (pop ''stickers'' (pop ''nonce'' kwargs)))
         in send ext utcnow content return_message ephemeral kwargs s
              \<in> {ext (Response_send_message content ephemeral kwargs') s,
                 ext (Followup_send content ephemeral kwargs') s,
                 and_then (ext (Response_defer ephemeral))
                   (\<lambda>_. ext (Followup_send content ephemeral kwargs')) s}))"
  by (auto simp add: send_def Let_def)

theorem send_plain_transport_witness:
  "interaction (ctx sample_state) = None
   \<and> send transport_tag 5 None True (VBool False) file_kwargs sample_state
       = (Inr (VInt 0), sample_state)
   \<and> send transport_tag (timedelta_minutes 16) None True (VBool False) file_kwargs answered_state
       = (Inr (VInt 0), answered_state)
   \<and> send transport_tag (timedelta_minutes 15) None True (VBool False) file_kwargs answered_state
       = (Inr (VInt 0), answered_state)
   \<and> send transport_tag (timedelta_minutes 14) None True (VBool False) file_kwargs answered_state
       \<noteq> (Inr (VInt 0), answered_state)"
proof -
  let ?r = "\<lparr>responded_at = Some 0, is_done = True\<rparr>"
  have i: "interaction (ctx sample_state) = None"
    by (simp add: sample_state_def sample_context_def)
  have a: "interaction (ctx answered_state) = Some ?r"
    by (simp add: answered_state_def)
  have 1: "send transport_tag 5 None True (VBool False) file_kwargs sample_state
       = (Inr (VInt 0), sample_state)"
    using send_plain_transport [of sample_state transport_tag 5 None True "VBool False" file_kwargs] i
    by (simp add: transport_tag_def)
  have 2: "send transport_tag (timedelta_minutes 16) None True (VBool False) file_kwargs answered_state
       = (Inr (VInt 0), answered_state)"
    using send_plain_transport [of answered_state transport_tag "timedelta_minutes 16" None True
        "VBool False" file_kwargs ?r 0] a
    by (simp add: transport_tag_def timedelta_minutes_def)
  have 3: "send transport_tag (timedelta_minutes 15) None True (VBool False) file_kwargs answered_state
       = (Inr (VInt 0), answered_state)"
    using send_plain_transport [of answered_state transport_tag "timedelta_minutes 15" None True
        "VBool False" file_kwargs ?r 0] a
    by (simp add: transport_tag_def)
  have 4: "send transport_tag (timedelta_minutes 14) None True (VBool False) file_kwargs answered_state
       \<noteq> (Inr (VInt 0), answered_state)"
    using send_plain_transport [of answered_state transport_tag "timedelta_minutes 14" None True
        "VBool False" file_kwargs ?r 0] a
    by (auto simp add: transport_tag_def timedelta_minutes_def and_then_def Let_def)
  show ?thesis using i 1 2 3 4 by simp
qed

text \<open>
  A session answered exactly 15 minutes before the call is not treated as active: the
  message leaves through the channel transport (answer 0), not through the follow-up
  (answer 2).
\<close>

theorem send_boundary_counterexample:
  "interaction (ctx answered_state) = Some \<lparr>responded_at = Some 0, is_done = True\<rparr>
   \<and> send transport_tag (0 + timedelta_minutes 15) None True (VBool False) no_kwargs answered_state
       = (Inr (VInt 0), answered_state)"
  by (simp add: send_def answered_state_def transport_tag_def)

text \<open>
  Claim C3. With an interaction whose first response is not recorded or is less than 15
  minutes old, \<open>send\<close> takes the initial-response path exactly when \<open>return_message\<close> is
  false, the interaction is not done, and none of \<^verbatim>\<open>file\<close>, \<^verbatim>\<open>files\<close>, \<^verbatim>\<open>allowed_mentions\<close>
  is among the keyword options. In every other case it takes the follow-up path, after a
  \<^verbatim>\<open>defer\<close> carrying \<open>ephemeral\<close> when the interaction is not done; an exception of the
  \<^verbatim>\<open>defer\<close> ends the call.
\<close>

theorem send_interactive_path:
  assumes "interaction (ctx s) = Some r"
    and "responded_at r = None \<or> (\<exists>t. responded_at r = Some t \<and> utcnow - t < timedelta_minutes 15)"
  shows "let kwargs' = pop ''mention_author'' (pop ''reference'' (pop ''stickers'' (pop ''nonce'' kwargs)));
             lightweight = (\<not> return_message \<and> \<not> is_done r
                \<and> ''file'' \<notin> dom kwargs \<and> ''files'' \<notin> dom kwargs \<and> ''allowed_mentions'' \<notin> dom kwargs)
         in (lightweight \<longrightarrow>
               send ext utcnow content return_message ephemeral kwargs s
                 = ext (Response_send_message content ephemeral kwargs') s)
          \<and> (\<not> lightweight \<and> \<not> is_done r \<longrightarrow>
               send ext utcnow content return_message ephemeral kwargs s
                 = (case ext (Response_defer ephemeral) s of
                      (Inl e, s1) \<Rightarrow> (Inl e, s1)
                    | (Inr _, s1) \<Rightarrow> ext (Followup_send content ephemeral kwargs') s1))
          \<and> (\<not> lightweight \<and> is_done r \<longrightarrow>
               send ext utcnow content return_message ephemeral kwargs s
                 = ext (Followup_send content ephemeral kwargs') s)"
  using assms
  by (auto simp add: send_def pop_def and_then_def Let_def dom_def split: option.splits)

theorem send_interactive_path_witness:
  "interaction (ctx unanswered_state) = Some \<lparr>responded_at = None, is_done = False\<rparr>
   \<and> send transport_tag 5 None False (VBool True) no_kwargs unanswered_state
       = (Inr (VInt 1), unanswered_state)
   \<and> send transport_tag 5 None False (VBool True) file_kwargs unanswered_state
       = (Inr (VInt 2), unanswered_state)
   \<and> send transport_tag 5 None True (VBool True) no_kwargs unanswered_state
       = (Inr (VInt 2), unanswered_state)
   \<and> send transport_tag 5 None False (VBool True) no_kwargs answered_state
       = (Inr (VInt 2), answered_state)"
proof -
  let ?u = "\<lparr>responded_at = None, is_done = False\<rparr>"
  let ?a = "\<lparr>responded_at = Some 0, is_done = True\<rparr>"
  have u: "interaction (ctx unanswered_state) = Some ?u"
    by (simp add: unanswered_state_def)
  have a: "interaction (ctx answered_state) = Some ?a"
    by (simp add: answered_state_def)
  have w: "responded_at ?a = None \<or> (\<exists>t. responded_at ?a = Some t \<and> 5 - t < timedelta_minutes 15)"
    by (simp add: timedelta_minutes_def)
  have 1: "send transport_tag 5 None False (VBool True) no_kwargs unanswered_state
       = (Inr (VInt 1), unanswered_state)"
    using send_interactive_path [OF u, of 5 no_kwargs False transport_tag None "VBool True"]
    by (simp add: transport_tag_def no_kwargs_def Let_def)
  have 2: "send transport_tag 5 None False (VBool True) file_kwargs unanswered_state
       = (Inr (VInt 2), unanswered_state)"
    using send_interactive_path [OF u, of 5 file_kwargs False transport_tag None "VBool True"]
    by (simp add: transport_tag_def file_kwargs_def Let_def)
  have 3: "send transport_tag 5 None True (VBool True) no_kwargs unanswered_state
       = (Inr (VInt 2), unanswered_state)"
    using send_interactive_path [OF u, of 5 no_kwargs True transport_tag None "VBool True"]
    by (simp add: transport_tag_def no_kwargs_def Let_def)
  have 4: "send transport_tag 5 None False (VBool True) no_kwargs answered_state
       = (Inr (VInt 2), answered_state)"
    using send_interactive_path [OF a w, of no_kwargs False transport_tag None "VBool True"]
    by (simp add: transport_tag_def no_kwargs_def Let_def)
  show ?thesis using u 1 2 3 4 by simp
qed

subsection \<open>Context.reinvoke\<close>

text \<open>What the \<^verbatim>\<open>finally\<close> block restores on every path: the bindings and the cursor.\<close>

lemma reinvoke_fields:
  assumes "command (ctx s) = Some cmd"
  shows "let s' = snd (reinvoke get_word ext call_hooks restart s); v = view (ctx s)
         in command (ctx s') = Some cmd
          \<and> invoked_with (ctx s') = invoked_with (ctx s)
          \<and> invoked_subcommand (ctx s') = invoked_subcommand (ctx s)
          \<and> invoked_parents (ctx s') = invoked_parents (ctx s)
          \<and> subcommand_passed (ctx s') = subcommand_passed (ctx s)
          \<and> index (views s' v) = index (views s v)
          \<and> previous (views s' v) = previous (views s v)"
  using assms
  by (simp add: reinvoke_def reinvoke_finally_def Let_def split: prod.splits)

text \<open>
  With \<^verbatim>\<open>restart=True\<close> the context is bound to a fresh list while the command runs
  (line 239): a collaborator that writes only into the list it finds in \<^verbatim>\<open>invoked_parents\<close>
  leaves the saved list as it was.
\<close>

lemma reinvoke_restart_keeps_parents:
  assumes "command (ctx s) = Some cmd"
    and "invoked_parents (ctx s) < next_ref s"
    and "\<forall>c t a. a \<noteq> invoked_parents (ctx t) \<longrightarrow> list_objs (snd (ext c t)) a = list_objs t a"
  shows "list_objs (snd (reinvoke get_word ext call_hooks True s)) (invoked_parents (ctx s))
           = list_objs s (invoked_parents (ctx s))"
proof -
  let ?l = "invoked_parents (ctx s)"
  obtain to_call s1 where t: "reinvoke_target get_word True cmd (view (ctx s)) s = (to_call, s1)"
    by (cases "reinvoke_target get_word True cmd (view (ctx s)) s")
  obtain r s2 where e: "ext (Command_reinvoke to_call call_hooks) s1 = (r, s2)"
    by (cases "ext (Command_reinvoke to_call call_hooks) s1")
  have 1: "list_objs s1 ?l = list_objs s ?l" and b: "invoked_parents (ctx s1) = next_ref s"
    using t assms(2)
    by (auto simp add: reinvoke_target_def new_list_def Let_def split: prod.splits)
  have "?l \<noteq> invoked_parents (ctx s1)"
    using b assms(2) by simp
  then have "list_objs (snd (ext (Command_reinvoke to_call call_hooks) s1)) ?l = list_objs s1 ?l"
    using assms(3) by blast
  then have 2: "list_objs s2 ?l = list_objs s1 ?l"
    using e by simp
  have "list_objs (snd (reinvoke get_word ext call_hooks True s)) ?l = list_objs s2 ?l"
    using assms(1) t e by (simp add: reinvoke_def reinvoke_finally_def Let_def)
  then show ?thesis using 1 2 by simp
qed

text \<open>
  Claim C2: after \<open>reinvoke\<close> on a context with a command, whether the command's own
  \<^verbatim>\<open>reinvoke\<close> returned or raised, \<^verbatim>\<open>command\<close>, \<^verbatim>\<open>invoked_with\<close>, \<^verbatim>\<open>invoked_subcommand\<close>,
  \<^verbatim>\<open>invoked_parents\<close>, \<^verbatim>\<open>subcommand_passed\<close> and the cursor of the view equal their values
  from before the call. The code sets out to do so (line 228: some state to revert to when
  we're done), but it saves the list of \<^verbatim>\<open>invoked_parents\<close> by reference (line 232). With
  \<^verbatim>\<open>restart=False\<close> the command's \<^verbatim>\<open>reinvoke\<close> finds that very list object: at the input
  below, where the list is \<^verbatim>\<open>['a']\<close> and the command appends the invoked name \<^verbatim>\<open>b\<close>, the
  \<^verbatim>\<open>finally\<close> block binds \<^verbatim>\<open>invoked_parents\<close> to the same object again, which now is
  \<^verbatim>\<open>['a', 'b']\<close>. With \<^verbatim>\<open>restart=True\<close> and the same command the list is \<^verbatim>\<open>['a']\<close> as before.
\<close>

theorem reinvoke_leaves_appended_parent:
  "list_objs sample_state (invoked_parents (ctx sample_state)) = [[97]]
   \<and> invoked_parents (ctx (snd (reinvoke sample_get_word appending_ext False False sample_state)))
       = invoked_parents (ctx sample_state)
   \<and> list_objs (snd (reinvoke sample_get_word appending_ext False False sample_state))
       (invoked_parents (ctx (snd (reinvoke sample_get_word appending_ext False False sample_state))))
     = [[97], [98]]
   \<and> list_objs (snd (reinvoke sample_get_word appending_ext False True sample_state))
       (invoked_parents (ctx (snd (reinvoke sample_get_word appending_ext False True sample_state))))
     = [[97]]"
  by (simp add: reinvoke_def reinvoke_target_def reinvoke_finally_def new_list_def appending_ext_def
        sample_get_word_def sample_state_def sample_context_def Let_def)

text \<open>
  Claim C5. With \<^verbatim>\<open>restart=True\<close> on a context with a command, the command that is called
  is the root parent of the context's command, or that command when it has no parent. The
  call finds the view rewound: \<open>get_word\<close> has read a word from the view with its index at the
  length of the prefix and its \<^verbatim>\<open>previous\<close> at 0, that word is \<^verbatim>\<open>invoked_with\<close>, and
  \<^verbatim>\<open>invoked_parents\<close> is an empty list.
\<close>

theorem reinvoke_restart:
  assumes "command (ctx s) = Some cmd"
  shows "let v = view (ctx s);
             rewound = (views s v)\<lparr>index := int (length (case prefix (ctx s) of None \<Rightarrow> [] | Some p \<Rightarrow> p)),
                                  previous := 0\<rparr>;
             target = (case root_parent (commands s cmd) of None \<Rightarrow> cmd | Some r \<Rightarrow> r);
             s1 = snd (reinvoke_target get_word True cmd v s)
         in fst (reinvoke_target get_word True cmd v s) = target
          \<and> views s1 v = snd (get_word rewound)
          \<and> invoked_with (ctx s1) = Some (fst (get_word rewound))
          \<and> list_objs s1 (invoked_parents (ctx s1)) = []
          \<and> fst (reinvoke get_word ext call_hooks True s)
              = (case fst (ext (Command_reinvoke target call_hooks) s1) of
                   Inl e \<Rightarrow> Inl e | Inr _ \<Rightarrow> Inr ())"
  using assms
  by (simp add: reinvoke_def reinvoke_target_def new_list_def Let_def split: prod.splits)

theorem reinvoke_restart_witness:
  "command (ctx sample_state) = Some 2
   \<and> fst (reinvoke_target sample_get_word True 2 3 sample_state) = 12
   \<and> views (snd (reinvoke_target sample_get_word True 2 3 sample_state)) 3
       = \<lparr>index = 2, previous = 1, buffer = [33, 97, 32, 98]\<rparr>
   \<and> invoked_with (ctx (snd (reinvoke_target sample_get_word True 2 3 sample_state))) = Some [97]
   \<and> list_objs (snd (reinvoke_target sample_get_word True 2 3 sample_state))
       (invoked_parents (ctx (snd (reinvoke_target sample_get_word True 2 3 sample_state)))) = []
   \<and> fst (reinvoke sample_get_word quiet_ext False True sample_state) = Inr ()"
proof -
  have c: "command (ctx sample_state) = Some 2"
    by (simp add: sample_state_def sample_context_def)
  have v: "view (ctx sample_state) = 3"
    by (simp add: sample_state_def sample_context_def)
  have g: "sample_get_word \<lparr>index = 1, previous = 0, buffer = [33, 97, 32, 98]\<rparr>
         = ([97], \<lparr>index = 2, previous = 1, buffer = [33, 97, 32, 98]\<rparr>)"
    by (simp add: sample_get_word_def)
  have r: "(views sample_state 3)\<lparr>index := int (length (case prefix (ctx sample_state) of None \<Rightarrow> [] | Some p \<Rightarrow> p)),
                                  previous := 0\<rparr> = \<lparr>index = 1, previous = 0, buffer = [33, 97, 32, 98]\<rparr>"
    by (simp add: sample_state_def sample_context_def)
  have t: "(case root_parent (commands sample_state 2) of None \<Rightarrow> 2 | Some r \<Rightarrow> r) = 12"
    by (simp add: sample_state_def)
  show ?thesis
    using reinvoke_restart [OF c, of sample_get_word quiet_ext False] c
    by (simp add: Let_def v g r t quiet_ext_def)
qed

text \<open>
  Claim C6. On a context without a command, \<open>reinvoke\<close> raises \<^verbatim>\<open>ValueError\<close>, whatever
  \<open>call_hooks\<close> and \<open>restart\<close> are, and leaves the context, the view and all the rest of the
  state as they were.
\<close>

theorem reinvoke_without_command:
  "command (ctx s) = None \<Longrightarrow> reinvoke get_word ext call_hooks restart s = (Inl ValueError, s)"
  by (simp add: reinvoke_def)

theorem reinvoke_without_command_witness:
  "command (ctx unresolved_state) = None
   \<and> reinvoke sample_get_word appending_ext True True unresolved_state
       = (Inl ValueError, unresolved_state)"
proof -
  have c: "command (ctx unresolved_state) = None"
    by (simp add: unresolved_state_def)
  show ?thesis
    using reinvoke_without_command [OF c, of sample_get_word appending_ext True True] c
    by simp
qed

subsection \<open>Context.valid\<close>

text \<open>
  Claim C7. \<open>valid\<close> holds exactly when both \<^verbatim>\<open>prefix\<close> and \<^verbatim>\<open>command\<close> are set: it holds
  when both are, and fails in each of the three cases where one is \<^verbatim>\<open>None\<close>. It is a
  function of the context that returns a truth value and nothing else.
\<close>

theorem valid_iff:
  "(valid c \<longleftrightarrow> prefix c \<noteq> None \<and> command c \<noteq> None)
   \<and> valid (c\<lparr>prefix := Some p, command := Some k\<rparr>)
   \<and> \<not> valid (c\<lparr>prefix := None, command := Some k\<rparr>)
   \<and> \<not> valid (c\<lparr>prefix := Some p, command := None\<rparr>)
   \<and> \<not> valid (c\<lparr>prefix := None, command := None\<rparr>)"
  by (simp add: valid_def)

theorem valid_iff_witness:
  "valid sample_context \<and> \<not> valid (ctx unresolved_state)"
  using valid_iff [of sample_context] valid_iff [of "ctx unresolved_state"]
  by (simp add: sample_context_def unresolved_state_def)

subsection \<open>The cached properties\<close>

lemma cached_property_hit:
  "cache (ctx t) = Some x \<Longrightarrow> cached_property cache store function t = (x, t)"
  by (simp add: cached_property_def)

lemma cached_property_miss:
  "cache (ctx s) = None \<Longrightarrow> fst (cached_property cache store function s) = fst (function s)"
  by (simp add: cached_property_def split: prod.splits)

lemma cached_property_stored:
  assumes "\<And>x c. cache (store x c) = Some x"
  shows "cache (ctx (snd (cached_property cache store function s)))
       = Some (fst (cached_property cache store function s))"
proof (cases "cache (ctx s)")
  case None
  obtain x s1 where f: "function s = (x, s1)" by (cases "function s")
  show ?thesis using None f assms by (simp add: cached_property_def)
next
  case (Some x)
  then show ?thesis by (simp add: cached_property_def)
qed

lemma cached_property_again:
  assumes "\<And>x c. cache (store x c) = Some x"
    and "cache (ctx t) = cache (ctx (snd (cached_property cache store function s)))"
  shows "cached_property cache store function t = (fst (cached_property cache store function s), t)"
proof -
  have "cache (ctx t) = Some (fst (cached_property cache store function s))"
    using cached_property_stored [of cache store, OF assms(1)] assms(2) by simp
  then show ?thesis by (rule cached_property_hit)
qed

lemma guild_frame: "the_bot (snd (guild s)) = the_bot s" "guild_me (snd (guild s)) = guild_me s"
  by (simp_all add: guild_def cached_property_def split: option.splits)

text \<open>
  Claim C8. The first read of \<open>guild\<close>, \<open>channel\<close> and \<open>author\<close> gives the attribute of that
  name of the message, the first read of \<open>me\<close> gives the guild's \<^verbatim>\<open>me\<close> when \<open>guild\<close> is set
  and the bot's user otherwise. The object read is stored: in any later state \<open>t\<close> in which
  the slot of the property is what the first read left there, whatever has happened to the
  message, the guild and the bot meanwhile, a read gives the same object again and changes
  nothing.
\<close>

theorem cached_properties:
  "(guild_cache (ctx s) = None \<longrightarrow> fst (guild s) = message_guild (messages s (message (ctx s))))
   \<and> (guild_cache (ctx t) = guild_cache (ctx (snd (guild s))) \<longrightarrow> guild t = (fst (guild s), t))
   \<and> (channel_cache (ctx s) = None \<longrightarrow> fst (channel s) = message_channel (messages s (message (ctx s))))
   \<and> (channel_cache (ctx t) = channel_cache (ctx (snd (channel s))) \<longrightarrow> channel t = (fst (channel s), t))
   \<and> (author_cache (ctx s) = None \<longrightarrow> fst (author s) = message_author (messages s (message (ctx s))))
   \<and> (author_cache (ctx t) = author_cache (ctx (snd (author s))) \<longrightarrow> author t = (fst (author s), t))
   \<and> (me_cache (ctx s) = None \<longrightarrow>
        fst (me s) = (case fst (guild s) of None \<Rightarrow> user (the_bot s) | Some g \<Rightarrow> guild_me s g))
   \<and> (me_cache (ctx t) = me_cache (ctx (snd (me s))) \<longrightarrow> me t = (fst (me s), t))"
proof (intro conjI impI)
  assume "me_cache (ctx s) = None"
  then have "fst (me s) = fst (let (g, s1) = guild s
          in case g of None \<Rightarrow> (user (the_bot s1), s1) | Some r \<Rightarrow> (guild_me s1 r, s1))"
    unfolding me_def by (rule cached_property_miss)
  then show "fst (me s) = (case fst (guild s) of None \<Rightarrow> user (the_bot s) | Some g \<Rightarrow> guild_me s g)"
    using guild_frame [of s] by (simp add: split_beta split: option.splits)
next
  assume "me_cache (ctx t) = me_cache (ctx (snd (me s)))"
  then show "me t = (fst (me s), t)"
    unfolding me_def by (intro cached_property_again) simp_all
next
  assume "guild_cache (ctx t) = guild_cache (ctx (snd (guild s)))"
  then show "guild t = (fst (guild s), t)"
    unfolding guild_def by (intro cached_property_again) simp_all
next
  assume "channel_cache (ctx t) = channel_cache (ctx (snd (channel s)))"
  then show "channel t = (fst (channel s), t)"
    unfolding channel_def by (intro cached_property_again) simp_all
next
  assume "author_cache (ctx t) = author_cache (ctx (snd (author s)))"
  then show "author t = (fst (author s), t)"
    unfolding author_def by (intro cached_property_again) simp_all
qed (simp_all add: guild_def channel_def author_def cached_property_miss)

theorem cached_properties_witness:
  "guild_cache (ctx sample_state) = None
   \<and> fst (guild sample_state) = Some 7
   \<and> fst (guild ((snd (guild sample_state))\<lparr>messages := other_messages\<rparr>)) = Some 7
   \<and> fst (channel sample_state) = 8
   \<and> fst (channel ((snd (channel sample_state))\<lparr>messages := other_messages\<rparr>)) = 8
   \<and> fst (author sample_state) = 9
   \<and> fst (author ((snd (author sample_state))\<lparr>messages := other_messages\<rparr>)) = 9
   \<and> fst (me sample_state) = 10
   \<and> fst (me ((snd (me sample_state))\<lparr>messages := other_messages, guild_me := (guild_me sample_state)(7 := 40)\<rparr>)) = 10"
proof -
  have n: "guild_cache (ctx sample_state) = None" "channel_cache (ctx sample_state) = None"
    "author_cache (ctx sample_state) = None" "me_cache (ctx sample_state) = None"
    by (simp_all add: sample_state_def sample_context_def)
  have m: "messages sample_state (message (ctx sample_state))
         = \<lparr>message_guild = Some 7, message_channel = 8, message_author = 9\<rparr>"
    "guild_me sample_state 7 = 10"
    by (simp_all add: sample_state_def)
  have g: "fst (guild sample_state) = Some 7" "fst (channel sample_state) = 8"
    "fst (author sample_state) = 9"
    using cached_properties [of sample_state sample_state] n m by simp_all
  have e: "fst (me sample_state) = 10"
    using cached_properties [of sample_state sample_state] n m g by simp
  have 1: "fst (guild ((snd (guild sample_state))\<lparr>messages := other_messages\<rparr>)) = Some 7"
    using cached_properties [of sample_state "(snd (guild sample_state))\<lparr>messages := other_messages\<rparr>"] g
    by simp
  have 2: "fst (channel ((snd (channel sample_state))\<lparr>messages := other_messages\<rparr>)) = 8"
    using cached_properties [of sample_state "(snd (channel sample_state))\<lparr>messages := other_messages\<rparr>"] g
    by simp
  have 3: "fst (author ((snd (author sample_state))\<lparr>messages := other_messages\<rparr>)) = 9"
    using cached_properties [of sample_state "(snd (author sample_state))\<lparr>messages := other_messages\<rparr>"] g
    by simp
  have 4: "fst (me ((snd (me sample_state))\<lparr>messages := other_messages, guild_me := (guild_me sample_state)(7 := 40)\<rparr>)) = 10"
    using cached_properties [of sample_state
        "(snd (me sample_state))\<lparr>messages := other_messages, guild_me := (guild_me sample_state)(7 := 40)\<rparr>"] e
    by simp
  show ?thesis using n g e 1 2 3 4 by simp
qed

subsection \<open>Context.reply\<close>

lemma send_plain:
  assumes "interaction (ctx s) = None
     \<or> (\<exists>r t. interaction (ctx s) = Some r \<and> responded_at r = Some t
              \<and> utcnow - t \<ge> timedelta_minutes 15)"
  shows "send ext utcnow content return_message ephemeral kwargs s
        = ext (Channel_send content kwargs) s"
  using assms by (auto simp add: send_def)

lemma send_active:
  assumes "interaction (ctx s) = Some r"
    and "responded_at r = None \<or> (\<exists>t. responded_at r = Some t \<and> utcnow - t < timedelta_minutes 15)"
  shows "send ext utcnow content return_message ephemeral kwargs s
       = (let kwargs' = pop ''mention_author'' (pop ''reference'' (pop ''stickers'' (pop ''nonce'' kwargs)))
          in if \<not> return_message \<and> \<not> is_done r
                \<and> ''file'' \<notin> dom kwargs \<and> ''files'' \<notin> dom kwargs \<and> ''allowed_mentions'' \<notin> dom kwargs
             then ext (Response_send_message content ephemeral kwargs') s
             else if \<not> is_done r
             then (case ext (Response_defer ephemeral) s of
                     (Inl x, s1) \<Rightarrow> (Inl x, s1)
                   | (Inr _, s1) \<Rightarrow> ext (Followup_send content ephemeral kwargs') s1)
             else ext (Followup_send content ephemeral kwargs') s)"
proof -
  have "\<not> (case responded_at r of None \<Rightarrow> False | Some t \<Rightarrow> utcnow - t \<ge> timedelta_minutes 15)"
    using assms(2) by (auto split: option.splits)
  then show ?thesis
    using assms(1) by (auto simp add: send_def Let_def pop_def dom_def and_then_def)
qed

lemma send_returns:
  assumes "\<And>c. returns (ext c)"
  shows "\<exists>y. fst (send ext utcnow content return_message ephemeral kwargs s) = Inr y"
proof -
  have a: "\<exists>y. fst (ext c t) = Inr y" for c t
    using assms unfolding returns_def by blast
  have b: "\<exists>y. fst (and_then (ext c) (\<lambda>_. ext d) t) = Inr y" for c d t
  proof -
    obtain r t1 where m: "ext c t = (r, t1)" by (cases "ext c t")
    obtain x where "r = Inr x" using a [of c t] m by auto
    then show ?thesis using m a [of d t1] by (simp add: and_then_def)
  qed
  show ?thesis
    unfolding send_def Let_def using a b
    by (simp split: option.splits)
qed

lemma pops_reference:
  "pop ''mention_author'' (pop ''reference'' (pop ''stickers'' (pop ''nonce'' (k(''reference'' \<mapsto> v)))))
     = pop ''mention_author'' (pop ''reference'' (pop ''stickers'' (pop ''nonce'' k)))"
  by (simp add: pop_def fun_eq_iff)

lemma pops_stripped:
  "pop ''mention_author'' (pop ''reference'' (pop ''stickers'' (pop ''nonce'' k))) ''nonce'' = None"
  "pop ''mention_author'' (pop ''reference'' (pop ''stickers'' (pop ''nonce'' k))) ''stickers'' = None"
  "pop ''mention_author'' (pop ''reference'' (pop ''stickers'' (pop ''nonce'' k))) ''reference'' = None"
  "pop ''mention_author'' (pop ''reference'' (pop ''stickers'' (pop ''nonce'' k))) ''mention_author'' = None"
  by (simp_all add: pop_def)

text \<open>
  Claim C9, as the code has it. For options that hold no \<^verbatim>\<open>reference\<close> of their own,
  \<open>reply\<close> is \<open>send\<close> with the same content and \<open>return_message\<close>, the options of the call,
  and the option \<^verbatim>\<open>reference\<close> set to the context's message; an option \<^verbatim>\<open>ephemeral\<close> is
  the parameter of that name of \<open>send\<close>. On the channel transport the reference reaches the
  transport with the other options. On the interactive transport the call that is made,
  the initial response or the follow-up, carries the options without \<^verbatim>\<open>reference\<close>,
  \<^verbatim>\<open>nonce\<close>, \<^verbatim>\<open>stickers\<close> and \<^verbatim>\<open>mention_author\<close>. No error comes of \<open>reply\<close> itself: it
  returns when the transports return. Options that do hold a \<^verbatim>\<open>reference\<close> give the call
  two values for one keyword, and \<open>reply\<close> raises \<^verbatim>\<open>TypeError\<close> before \<open>send\<close> runs.
\<close>

theorem reply_adds_reference:
  "(''reference'' \<in> dom kwargs \<longrightarrow>
      reply ext utcnow content return_message kwargs s = (Inl TypeError, s))
   \<and> (''reference'' \<notin> dom kwargs \<longrightarrow>
        (let e = (case kwargs ''ephemeral'' of None \<Rightarrow> VBool False | Some x \<Rightarrow> x);
             k = pop ''ephemeral'' kwargs;
             m = VRef (message (ctx s));
             k' = pop ''mention_author'' (pop ''reference'' (pop ''stickers'' (pop ''nonce'' k)))
         in reply ext utcnow content return_message kwargs s
              = send ext utcnow content return_message e (k(''reference'' \<mapsto> m)) s
          \<and> (interaction (ctx s) = None
               \<or> (\<exists>r t. interaction (ctx s) = Some r \<and> responded_at r = Some t
                        \<and> utcnow - t \<ge> timedelta_minutes 15) \<longrightarrow>
              reply ext utcnow content return_message kwargs s
                = ext (Channel_send content (k(''reference'' \<mapsto> m))) s)
          \<and> (\<forall>r. interaction (ctx s) = Some r
                  \<and> (responded_at r = None
                       \<or> (\<exists>t. responded_at r = Some t \<and> utcnow - t < timedelta_minutes 15)) \<longrightarrow>
              reply ext utcnow content return_message kwargs s
                = (if \<not> return_message \<and> \<not> is_done r
                      \<and> ''file'' \<notin> dom kwargs \<and> ''files'' \<notin> dom kwargs
                      \<and> ''allowed_mentions'' \<notin> dom kwargs
                   then ext (Response_send_message content e k') s
                   else if \<not> is_done r
                   then (case ext (Response_defer e) s of
                           (Inl x, s1) \<Rightarrow> (Inl x, s1)
                         | (Inr _, s1) \<Rightarrow> ext (Followup_send content e k') s1)
                   else ext (Followup_send content e k') s))
          \<and> k' ''reference'' = None \<and> k' ''nonce'' = None
          \<and> k' ''stickers'' = None \<and> k' ''mention_author'' = None
          \<and> ((\<forall>c. returns (ext c)) \<longrightarrow>
               (\<exists>y. fst (reply ext utcnow content return_message kwargs s) = Inr y))))"
proof (intro conjI impI)
  assume "''reference'' \<in> dom kwargs"
  then show "reply ext utcnow content return_message kwargs s = (Inl TypeError, s)"
    by (simp add: reply_def)
next
  assume n: "''reference'' \<notin> dom kwargs"
  define e where "e = (case kwargs ''ephemeral'' of None \<Rightarrow> VBool False | Some x \<Rightarrow> x)"
  define k where "k = pop ''ephemeral'' kwargs"
  define m where "m = VRef (message (ctx s))"
  define k' where "k' = pop ''mention_author'' (pop ''reference'' (pop ''stickers'' (pop ''nonce'' k)))"
  have r: "reply ext utcnow content return_message kwargs s
         = send ext utcnow content return_message e (k(''reference'' \<mapsto> m)) s"
    using n by (simp add: reply_def e_def k_def m_def)
  have p: "reply ext utcnow content return_message kwargs s
         = ext (Channel_send content (k(''reference'' \<mapsto> m))) s"
    if "interaction (ctx s) = None
         \<or> (\<exists>r t. interaction (ctx s) = Some r \<and> responded_at r = Some t
                  \<and> utcnow - t \<ge> timedelta_minutes 15)"
    using r send_plain [OF that] by simp
  have d: "''file'' \<in> dom (k(''reference'' \<mapsto> m)) \<longleftrightarrow> ''file'' \<in> dom kwargs"
    "''files'' \<in> dom (k(''reference'' \<mapsto> m)) \<longleftrightarrow> ''files'' \<in> dom kwargs"
    "''allowed_mentions'' \<in> dom (k(''reference'' \<mapsto> m)) \<longleftrightarrow> ''allowed_mentions'' \<in> dom kwargs"
    by (simp_all add: k_def pop_def dom_def)
  have a: "reply ext utcnow content return_message kwargs s
                = (if \<not> return_message \<and> \<not> is_done i
                      \<and> ''file'' \<notin> dom kwargs \<and> ''files'' \<notin> dom kwargs
                      \<and> ''allowed_mentions'' \<notin> dom kwargs
                   then ext (Response_send_message content e k') s
                   else if \<not> is_done i
                   then (case ext (Response_defer e) s of
                           (Inl x, s1) \<Rightarrow> (Inl x, s1)
                         | (Inr _, s1) \<Rightarrow> ext (Followup_send content e k') s1)
                   else ext (Followup_send content e k') s)"
    if "interaction (ctx s) = Some i
         \<and> (responded_at i = None
               \<or> (\<exists>t. responded_at i = Some t \<and> utcnow - t < timedelta_minutes 15))" for i
  proof -
    have "send ext utcnow content return_message e (k(''reference'' \<mapsto> m)) s
        = (let kwargs' = pop ''mention_author'' (pop ''reference'' (pop ''stickers''
                           (pop ''nonce'' (k(''reference'' \<mapsto> m)))))
          in if \<not> return_message \<and> \<not> is_done i
                \<and> ''file'' \<notin> dom (k(''reference'' \<mapsto> m)) \<and> ''files'' \<notin> dom (k(''reference'' \<mapsto> m))
                \<and> ''allowed_mentions'' \<notin> dom (k(''reference'' \<mapsto> m))
             then ext (Response_send_message content e kwargs') s
             else if \<not> is_done i
             then (case ext (Response_defer e) s of
                     (Inl x, s1) \<Rightarrow> (Inl x, s1)
                   | (Inr _, s1) \<Rightarrow> ext (Followup_send content e kwargs') s1)
             else ext (Followup_send content e kwargs') s)"
      using that by (intro send_active) simp_all
    then show ?thesis
      unfolding r Let_def pops_reference d k'_def by simp
  qed
  have z: "k' ''reference'' = None" "k' ''nonce'' = None" "k' ''stickers'' = None"
    "k' ''mention_author'' = None"
    unfolding k'_def by (rule pops_stripped)+
  have q: "\<exists>y. fst (reply ext utcnow content return_message kwargs s) = Inr y"
    if "\<forall>c. returns (ext c)"
    unfolding r using that by (intro send_returns) simp
  show "let e = (case kwargs ''ephemeral'' of None \<Rightarrow> VBool False | Some x \<Rightarrow> x);
             k = pop ''ephemeral'' kwargs;
             m = VRef (message (ctx s));
             k' = pop ''mention_author'' (pop ''reference'' (pop ''stickers'' (pop ''nonce'' k)))
         in reply ext utcnow content return_message kwargs s
              = send ext utcnow content return_message e (k(''reference'' \<mapsto> m)) s
          \<and> (interaction (ctx s) = None
               \<or> (\<exists>r t. interaction (ctx s) = Some r \<and> responded_at r = Some t
                        \<and> utcnow - t \<ge> timedelta_minutes 15) \<longrightarrow>
              reply ext utcnow content return_message kwargs s
                = ext (Channel_send content (k(''reference'' \<mapsto> m))) s)
          \<and> (\<forall>r. interaction (ctx s) = Some r
                  \<and> (responded_at r = None
                       \<or> (\<exists>t. responded_at r = Some t \<and> utcnow - t < timedelta_minutes 15)) \<longrightarrow>
              reply ext utcnow content return_message kwargs s
                = (if \<not> return_message \<and> \<not> is_done r
                      \<and> ''file'' \<notin> dom kwargs \<and> ''files'' \<notin> dom kwargs
                      \<and> ''allowed_mentions'' \<notin> dom kwargs
                   then ext (Response_send_message content e k') s
                   else if \<not> is_done r
                   then (case ext (Response_defer e) s of
                           (Inl x, s1) \<Rightarrow> (Inl x, s1)
                         | (Inr _, s1) \<Rightarrow> ext (Followup_send content e k') s1)
                   else ext (Followup_send content e k') s))
          \<and> k' ''reference'' = None \<and> k' ''nonce'' = None
          \<and> k' ''stickers'' = None \<and> k' ''mention_author'' = None
          \<and> ((\<forall>c. returns (ext c)) \<longrightarrow>
               (\<exists>y. fst (reply ext utcnow content return_message kwargs s) = Inr y))"
    unfolding Let_def e_def [symmetric] k_def [symmetric] m_def [symmetric] k'_def [symmetric]
    using r p a z q by blast
qed


theorem reply_adds_reference_witness:
  "''reference'' \<notin> dom nonce_kwargs
   \<and> reply echo_reference 5 None False nonce_kwargs sample_state = (Inr (VRef 1), sample_state)
   \<and> reply echo_reference 5 None False nonce_kwargs unanswered_state = (Inr VNone, unanswered_state)
   \<and> reply transport_tag 5 None False nonce_kwargs unanswered_state = (Inr (VInt 1), unanswered_state)
   \<and> reply transport_tag 5 None False reference_kwargs sample_state = (Inl TypeError, sample_state)
   \<and> fst (reply quiet_ext 5 None False nonce_kwargs unanswered_state) \<noteq> Inl TypeError"
proof -
  let ?u = "\<lparr>responded_at = None, is_done = False\<rparr>"
  have n: "''reference'' \<notin> dom nonce_kwargs"
    by (simp add: nonce_kwargs_def)
  have f: "''file'' \<notin> dom nonce_kwargs" "''files'' \<notin> dom nonce_kwargs"
    "''allowed_mentions'' \<notin> dom nonce_kwargs" "is_done ?u = False"
    by (simp_all add: nonce_kwargs_def)
  have d: "''reference'' \<in> dom reference_kwargs"
    by (simp add: reference_kwargs_def)
  have i: "interaction (ctx sample_state) = None
       \<or> (\<exists>r t. interaction (ctx sample_state) = Some r \<and> responded_at r = Some t
                \<and> 5 - t \<ge> timedelta_minutes 15)"
    by (simp add: sample_state_def sample_context_def)
  have m: "message (ctx sample_state) = 1"
    by (simp add: sample_state_def sample_context_def)
  have u: "interaction (ctx unanswered_state) = Some ?u
       \<and> (responded_at ?u = None \<or> (\<exists>t. responded_at ?u = Some t \<and> 5 - t < timedelta_minutes 15))"
    by (simp add: unanswered_state_def)
  have q: "\<forall>c. returns (quiet_ext c)"
    by (simp add: returns_def quiet_ext_def)
  note plain = reply_adds_reference [where kwargs = nonce_kwargs and ext = echo_reference
      and utcnow = 5 and content = None and return_message = False and s = sample_state,
      unfolded Let_def, THEN conjunct2, THEN mp, OF n, THEN conjunct2, THEN conjunct1, THEN mp, OF i]
  have 1: "reply echo_reference 5 None False nonce_kwargs sample_state = (Inr (VRef 1), sample_state)"
    unfolding plain by (simp add: echo_reference_def m)
  have t: "reply ext 5 None False nonce_kwargs unanswered_state
      = ext (Response_send_message None
               (case nonce_kwargs ''ephemeral'' of None \<Rightarrow> VBool False | Some x \<Rightarrow> x)
               (pop ''mention_author'' (pop ''reference'' (pop ''stickers'' (pop ''nonce''
                  (pop ''ephemeral'' nonce_kwargs)))))) unanswered_state" for ext
    using reply_adds_reference [where kwargs = nonce_kwargs and ext = ext
      and utcnow = 5 and content = None and return_message = False and s = unanswered_state,
      unfolded Let_def, THEN conjunct2, THEN mp, OF n, THEN conjunct2, THEN conjunct2,
      THEN conjunct1, THEN spec, of ?u, THEN mp, OF u]
    by (simp only: f if_True simp_thms)
  have 2: "reply echo_reference 5 None False nonce_kwargs unanswered_state = (Inr VNone, unanswered_state)"
    unfolding t by (simp add: echo_reference_def pop_def)
  have 3: "reply transport_tag 5 None False nonce_kwargs unanswered_state = (Inr (VInt 1), unanswered_state)"
    unfolding t by (simp add: transport_tag_def)
  have 4: "reply transport_tag 5 None False reference_kwargs sample_state = (Inl TypeError, sample_state)"
    by (rule reply_adds_reference [where kwargs = reference_kwargs and ext = transport_tag
      and utcnow = 5 and content = None and return_message = False and s = sample_state,
      THEN conjunct1, THEN mp, OF d])
  obtain y where "fst (reply quiet_ext 5 None False nonce_kwargs unanswered_state) = Inr y"
    using reply_adds_reference [where kwargs = nonce_kwargs and ext = quiet_ext
      and utcnow = 5 and content = None and return_message = False and s = unanswered_state,
      unfolded Let_def, THEN conjunct2, THEN mp, OF n, THEN conjunct2, THEN conjunct2,
      THEN conjunct2, THEN conjunct2, THEN conjunct2, THEN conjunct2, THEN conjunct2, THEN mp, OF q]
    by (elim exE)
  then have 5: "fst (reply quiet_ext 5 None False nonce_kwargs unanswered_state) \<noteq> Inl TypeError"
    by simp
  show ?thesis
    by (intro conjI n 1 2 3 4 5)
qed

text \<open>
  With a \<^verbatim>\<open>reference\<close> among its options \<open>reply\<close> raises, on the interactive transport
  too, where \<open>send\<close> with these options and the reference to the message drops the
  reference and answers (answer 1, the initial response).
\<close>

theorem reply_reference_counterexample:
  "reply transport_tag 5 None False reference_kwargs unanswered_state
     = (Inl TypeError, unanswered_state)
   \<and> send transport_tag 5 None False (VBool False)
       (reference_kwargs(''reference'' \<mapsto> VRef (message (ctx unanswered_state)))) unanswered_state
     = (Inr (VInt 1), unanswered_state)"
  by (simp add: reply_def send_def pop_def reference_kwargs_def unanswered_state_def transport_tag_def
        Let_def)

subsection \<open>Context.send_help\<close>

lemma except_CommandError_catches:
  assumes "body s = (Inl (CommandError n), s1)"
  shows "except_CommandError ext cmd body s
       = (case ext (On_help_command_error cmd (CommandError n)) s1 of
            (Inl e, s2) \<Rightarrow> (Inl e, s2)
          | (Inr _, s2) \<Rightarrow> (Inr VNone, s2))"
  using assms by (simp add: except_CommandError_def and_then_def)

lemma returns_and_then:
  assumes "returns m" and "\<And>x. returns (f x)"
  shows "returns (and_then m f)"
  unfolding returns_def
proof
  fix t
  obtain r t1 where m: "m t = (r, t1)" by (cases "m t")
  obtain x where "r = Inr x" using assms(1) m unfolding returns_def by (metis fst_conv)
  then have "and_then m f t = f x t1" using m by (simp add: and_then_def)
  then show "\<exists>y. fst (and_then m f t) = Inr y"
    using assms(2) [of x] unfolding returns_def by simp
qed

lemma returns_except:
  assumes "\<And>e. returns (ext (On_help_command_error cmd e))" and "raises_only_CommandError body"
  shows "returns (except_CommandError ext cmd body)"
  unfolding returns_def
proof
  fix t
  obtain r t1 where b: "body t = (r, t1)" by (cases "body t")
  show "\<exists>y. fst (except_CommandError ext cmd body t) = Inr y"
  proof (cases r)
    case (Inl e)
    then obtain n where n: "e = CommandError n"
      using assms(2) b unfolding raises_only_CommandError_def by (metis fst_conv)
    have "returns (and_then (ext (On_help_command_error cmd (CommandError n))) (\<lambda>_ s2. (Inr VNone, s2)))"
      by (rule returns_and_then [OF assms(1)]) (simp add: returns_def)
    then show ?thesis
      using Inl n b unfolding returns_def by (simp add: except_CommandError_def)
  next
    case (Inr x)
    then show ?thesis using b by (simp add: except_CommandError_def)
  qed
qed

lemma raises_only_render:
  assumes "\<And>f. raises_only_CommandError (wrap_callback f)"
  shows "raises_only_CommandError (render_entity wrap_callback ext cmd entity)"
  using assms unfolding raises_only_CommandError_def render_entity_def
  by (auto split: entity.splits)

lemma send_help_returns:
  assumes "\<And>cmd name. returns (ext (Prepare_help_command cmd name))"
    and "\<And>cmd. returns (ext (Get_bot_mapping cmd))"
    and "\<And>cmd e. returns (ext (On_help_command_error cmd e))"
    and "\<And>f. raises_only_CommandError (wrap_callback f)"
  shows "\<exists>x. fst (send_help wrap_callback ext copy args s) = Inr x"
proof (cases "help_command (the_bot s)")
  case None
  then show ?thesis by (simp add: send_help_def)
next
  case (Some h)
  obtain cmd s2 where c: "help_copy copy h s = (cmd, s2)" by (cases "help_copy copy h s")
  have e: "returns (except_CommandError ext cmd body)" if "raises_only_CommandError body" for body
    by (rule returns_except) (rule assms(3), rule that)
  show ?thesis
  proof (cases args)
    case Nil
    have "returns (and_then (ext (Prepare_help_command cmd None))
                    (\<lambda>_. and_then (ext (Get_bot_mapping cmd))
                      (\<lambda>mapping. except_CommandError ext cmd
                         (wrap_callback (ext (Send_bot_help cmd mapping))))))"
      by (intro returns_and_then assms(1,2) e assms(4))
    then show ?thesis
      using Some c Nil unfolding returns_def by (simp add: send_help_def)
  next
    case (Cons entity0 rest)
    have "returns (and_then (ext (Prepare_help_command cmd (Some name)))
                                 (\<lambda>_. except_CommandError ext cmd
                                    (render_entity wrap_callback ext cmd entity)))" for name entity
      by (intro returns_and_then assms(1) e raises_only_render assms(4))
    then show ?thesis
      using Some c Cons unfolding returns_def
      by (simp add: send_help_def Let_def split: option.splits)
  qed
qed

lemma converting_wrap_ok: "raises_only_CommandError (converting_wrap f)"
  unfolding raises_only_CommandError_def converting_wrap_def
  by (auto split: prod.splits sum.splits error.splits)

text \<open>
  Claim C4, as the code has it. Without a help command on the bot, \<open>send_help\<close> returns
  \<^verbatim>\<open>None\<close> at once and changes nothing. For a string that names neither a cog nor a command
  it returns \<^verbatim>\<open>None\<close> and raises nothing. A \<^verbatim>\<open>CommandError\<close> that leaves the wrapped
  \<^verbatim>\<open>send_bot_help\<close>, \<^verbatim>\<open>send_cog_help\<close>, \<^verbatim>\<open>send_group_help\<close> or \<^verbatim>\<open>send_command_help\<close> is
  handed to \<^verbatim>\<open>on_help_command_error\<close> of the copy, and \<open>send_help\<close> returns \<^verbatim>\<open>None\<close> when
  that returns. When \<open>wrap_callback\<close> lets no other exception than \<^verbatim>\<open>CommandError\<close> out, and
  \<^verbatim>\<open>prepare_help_command\<close>, \<^verbatim>\<open>get_bot_mapping\<close> and \<^verbatim>\<open>on_help_command_error\<close> return,
  \<open>send_help\<close> raises nothing.
\<close>

theorem send_help_amended:
  "(help_command (the_bot s) = None \<longrightarrow>
      send_help wrap_callback ext copy args s = (Inr VNone, s))
   \<and> (get_cog (the_bot s) name = None \<and> get_command (the_bot s) name = None \<longrightarrow>
        fst (send_help wrap_callback ext copy (Str_entity name # rest) s) = Inr VNone)
   \<and> (help_command (the_bot s) = Some h
        \<and> ext (Prepare_help_command (fst (help_copy copy h s)) None) (snd (help_copy copy h s))
            = (Inr x, s3)
        \<and> ext (Get_bot_mapping (fst (help_copy copy h s))) s3 = (Inr mapping, s4)
        \<and> wrap_callback (ext (Send_bot_help (fst (help_copy copy h s)) mapping)) s4
            = (Inl (CommandError n), s5) \<longrightarrow>
        send_help wrap_callback ext copy [] s
          = (case ext (On_help_command_error (fst (help_copy copy h s)) (CommandError n)) s5 of
               (Inl e, s6) \<Rightarrow> (Inl e, s6)
             | (Inr _, s6) \<Rightarrow> (Inr VNone, s6)))
   \<and> (help_command (the_bot s) = Some h
        \<and> resolve_entity (snd (help_copy copy h s)) entity0 = entity \<and> entity \<noteq> None_entity
        \<and> entity_qualified_name (snd (help_copy copy h s)) entity = Some qname
        \<and> ext (Prepare_help_command (fst (help_copy copy h s)) (Some qname)) (snd (help_copy copy h s))
            = (Inr x, s3)
        \<and> render_entity wrap_callback ext (fst (help_copy copy h s)) entity s3
            = (Inl (CommandError n), s5) \<longrightarrow>
        send_help wrap_callback ext copy (entity0 # rest) s
          = (case ext (On_help_command_error (fst (help_copy copy h s)) (CommandError n)) s5 of
               (Inl e, s6) \<Rightarrow> (Inl e, s6)
             | (Inr _, s6) \<Rightarrow> (Inr VNone, s6)))
   \<and> ((\<forall>c q. returns (ext (Prepare_help_command c q)))
        \<and> (\<forall>c. returns (ext (Get_bot_mapping c)))
        \<and> (\<forall>c e. returns (ext (On_help_command_error c e)))
        \<and> (\<forall>f. raises_only_CommandError (wrap_callback f)) \<longrightarrow>
        (\<exists>y. fst (send_help wrap_callback ext copy args s) = Inr y))"
proof (intro conjI impI)
  assume "(\<forall>c q. returns (ext (Prepare_help_command c q)))
        \<and> (\<forall>c. returns (ext (Get_bot_mapping c)))
        \<and> (\<forall>c e. returns (ext (On_help_command_error c e)))
        \<and> (\<forall>f. raises_only_CommandError (wrap_callback f))"
  then show "\<exists>y. fst (send_help wrap_callback ext copy args s) = Inr y"
    by (intro send_help_returns) simp_all
next
  show "send_help wrap_callback ext copy args s = (Inr VNone, s)"
    if "help_command (the_bot s) = None"
    using that by (simp add: send_help_def)
next
  assume a: "get_cog (the_bot s) name = None \<and> get_command (the_bot s) name = None"
  show "fst (send_help wrap_callback ext copy (Str_entity name # rest) s) = Inr VNone"
  proof (cases "help_command (the_bot s)")
    case None
    then show ?thesis by (simp add: send_help_def)
  next
    case (Some h')
    obtain c t where c: "help_copy copy h' s = (c, t)" by (cases "help_copy copy h' s")
    have "the_bot t = the_bot s"
      using c by (auto simp add: help_copy_def new_help_def Let_def)
    then have "resolve_entity t (Str_entity name) = None_entity"
      using a by (simp add: resolve_entity_def)
    then show ?thesis using Some c by (simp add: send_help_def)
  qed
next
  let ?cmd = "fst (help_copy copy h s)"
  let ?s2 = "snd (help_copy copy h s)"
  assume a: "help_command (the_bot s) = Some h
        \<and> ext (Prepare_help_command ?cmd None) ?s2 = (Inr x, s3)
        \<and> ext (Get_bot_mapping ?cmd) s3 = (Inr mapping, s4)
        \<and> wrap_callback (ext (Send_bot_help ?cmd mapping)) s4 = (Inl (CommandError n), s5)"
  then have "send_help wrap_callback ext copy [] s
      = except_CommandError ext ?cmd (wrap_callback (ext (Send_bot_help ?cmd mapping))) s4"
    by (simp add: send_help_def and_then_def split_beta)
  also have "\<dots> = (case ext (On_help_command_error ?cmd (CommandError n)) s5 of
               (Inl e, s6) \<Rightarrow> (Inl e, s6)
             | (Inr _, s6) \<Rightarrow> (Inr VNone, s6))"
    using a by (intro except_CommandError_catches) simp
  finally show "send_help wrap_callback ext copy [] s
          = (case ext (On_help_command_error ?cmd (CommandError n)) s5 of
               (Inl e, s6) \<Rightarrow> (Inl e, s6)
             | (Inr _, s6) \<Rightarrow> (Inr VNone, s6))" .
next
  let ?cmd = "fst (help_copy copy h s)"
  let ?s2 = "snd (help_copy copy h s)"
  assume a: "help_command (the_bot s) = Some h
        \<and> resolve_entity ?s2 entity0 = entity \<and> entity \<noteq> None_entity
        \<and> entity_qualified_name ?s2 entity = Some qname
        \<and> ext (Prepare_help_command ?cmd (Some qname)) ?s2 = (Inr x, s3)
        \<and> render_entity wrap_callback ext ?cmd entity s3 = (Inl (CommandError n), s5)"
  then have "send_help wrap_callback ext copy (entity0 # rest) s
      = except_CommandError ext ?cmd (render_entity wrap_callback ext ?cmd entity) s3"
    by (simp add: send_help_def and_then_def Let_def split_beta)
  also have "\<dots> = (case ext (On_help_command_error ?cmd (CommandError n)) s5 of
               (Inl e, s6) \<Rightarrow> (Inl e, s6)
             | (Inr _, s6) \<Rightarrow> (Inr VNone, s6))"
    using a by (intro except_CommandError_catches) simp
  finally show "send_help wrap_callback ext copy (entity0 # rest) s
          = (case ext (On_help_command_error ?cmd (CommandError n)) s5 of
               (Inl e, s6) \<Rightarrow> (Inl e, s6)
             | (Inr _, s6) \<Rightarrow> (Inr VNone, s6))" .
qed

theorem send_help_amended_witness:
  "help_command (the_bot helpless_state) = None
   \<and> send_help plain_wrap render_fails same_settings [] helpless_state = (Inr VNone, helpless_state)
   \<and> fst (send_help plain_wrap render_fails same_settings [Str_entity [120]] sample_state) = Inr VNone
   \<and> fst (send_help plain_wrap render_fails same_settings [] sample_state) = Inr VNone
   \<and> fst (send_help plain_wrap render_fails same_settings [Command_entity 2] sample_state) = Inr VNone
   \<and> fst (send_help converting_wrap render_fails same_settings [Command_entity 2] sample_state)
       \<noteq> Inl (CommandError 7)"
proof -
  let ?s = "snd (help_copy same_settings 6 sample_state)"
  have n: "help_command (the_bot helpless_state) = None"
    by (simp add: helpless_state_def)
  have h: "help_command (the_bot sample_state) = Some 6"
    "get_cog (the_bot sample_state) [120] = None" "get_command (the_bot sample_state) [120] = None"
    by (simp_all add: sample_state_def)
  have g: "is_group (commands ?s 2)" "qualified_name (commands ?s 2) = [97, 32, 98]"
    by (simp_all add: help_copy_def new_help_def sample_state_def Let_def)
  have 1: "send_help plain_wrap render_fails same_settings [] helpless_state = (Inr VNone, helpless_state)"
    using send_help_amended [where s = helpless_state and wrap_callback = plain_wrap
        and ext = render_fails and copy = same_settings and args = "[]" and name = "[]" and rest = "[]"
        and h = 6 and x = VNone and ?s3.0 = helpless_state and mapping = VNone
        and ?s4.0 = helpless_state and n = 7 and ?s5.0 = helpless_state
        and entity0 = None_entity and entity = None_entity and qname = "[]"] n
    by simp
  have 2: "fst (send_help plain_wrap render_fails same_settings [Str_entity [120]] sample_state) = Inr VNone"
    using send_help_amended [where s = sample_state and wrap_callback = plain_wrap
        and ext = render_fails and copy = same_settings and args = "[]" and name = "[120]" and rest = "[]"
        and h = 6 and x = VNone and ?s3.0 = ?s and mapping = VNone
        and ?s4.0 = ?s and n = 7 and ?s5.0 = ?s
        and entity0 = None_entity and entity = None_entity and qname = "[]"] h(2,3)
    by simp
  have 3: "fst (send_help plain_wrap render_fails same_settings [] sample_state) = Inr VNone"
    using send_help_amended [where s = sample_state and wrap_callback = plain_wrap
        and ext = render_fails and copy = same_settings and args = "[]" and name = "[]" and rest = "[]"
        and h = 6 and x = VNone and ?s3.0 = ?s and mapping = VNone
        and ?s4.0 = ?s and n = 7 and ?s5.0 = ?s
        and entity0 = None_entity and entity = None_entity and qname = "[]"] h(1)
    by (simp add: render_fails_def plain_wrap_def)
  have 4: "fst (send_help plain_wrap render_fails same_settings [Command_entity 2] sample_state) = Inr VNone"
    using send_help_amended [where s = sample_state and wrap_callback = plain_wrap
        and ext = render_fails and copy = same_settings and args = "[]" and name = "[]" and rest = "[]"
        and h = 6 and x = VNone and ?s3.0 = ?s and mapping = VNone
        and ?s4.0 = ?s and n = 7 and ?s5.0 = ?s
        and entity0 = "Command_entity 2" and entity = "Command_entity 2"
        and qname = "[97, 32, 98]"] h(1) g
    by (simp add: render_fails_def plain_wrap_def resolve_entity_def entity_qualified_name_def
          render_entity_def)
  have r: "\<forall>c. returns (render_fails (Prepare_help_command c q))
       \<and> returns (render_fails (Get_bot_mapping c))
       \<and> returns (render_fails (On_help_command_error c e))" for q e
    by (simp add: returns_def render_fails_def)
  have 5: "fst (send_help converting_wrap render_fails same_settings [Command_entity 2] sample_state)
       \<noteq> Inl (CommandError 7)"
    using send_help_amended [where s = sample_state and wrap_callback = converting_wrap
        and ext = render_fails and copy = same_settings and args = "[Command_entity 2]"
        and name = "[]" and rest = "[]"
        and h = 6 and x = VNone and ?s3.0 = ?s and mapping = VNone
        and ?s4.0 = ?s and n = 7 and ?s5.0 = ?s
        and entity0 = None_entity and entity = None_entity and qname = "[]"]
      r converting_wrap_ok
    by auto
  show ?thesis using n 1 2 3 4 5 by simp
qed

text \<open>
  A \<^verbatim>\<open>CommandError\<close> raised by \<^verbatim>\<open>prepare_help_command\<close>, which runs before the \<^verbatim>\<open>try\<close>,
  reaches the caller of \<open>send_help\<close>.
\<close>

theorem send_help_raises_counterexample:
  "fst (send_help plain_wrap prepare_fails same_settings [] sample_state) = Inl (CommandError 7)"
  by (simp add: send_help_def help_copy_def new_help_def and_then_def prepare_fails_def
        sample_state_def Let_def)

lemma keeps_helpD:
  assumes "keeps_help h f" and "f t = (r, t')"
  shows "help_objs t' h = help_objs t h" and "help_command (the_bot t') = help_command (the_bot t)"
  using assms unfolding keeps_help_def by (metis snd_conv)+

lemma keeps_help_and_then:
  assumes "keeps_help h m" and "\<And>x. keeps_help h (f x)"
  shows "keeps_help h (and_then m f)"
  unfolding keeps_help_def
proof (intro allI)
  fix t
  obtain r t1 where m: "m t = (r, t1)" by (cases "m t")
  show "help_objs (snd (and_then m f t)) h = help_objs t h
      \<and> help_command (the_bot (snd (and_then m f t))) = help_command (the_bot t)"
  proof (cases r)
    case (Inl e)
    then show ?thesis using m keeps_helpD [OF assms(1) m] by (simp add: and_then_def)
  next
    case (Inr x)
    obtain r2 t2 where f: "f x t1 = (r2, t2)" by (cases "f x t1")
    show ?thesis
      using Inr m f keeps_helpD [OF assms(1) m] keeps_helpD [OF assms(2) f]
      by (simp add: and_then_def)
  qed
qed

lemma keeps_help_return: "keeps_help h (\<lambda>s. (r, s))"
  by (simp add: keeps_help_def)

lemma keeps_help_except:
  assumes "\<And>e. keeps_help h (ext (On_help_command_error cmd e))" and "keeps_help h body"
  shows "keeps_help h (except_CommandError ext cmd body)"
  unfolding keeps_help_def
proof (intro allI)
  fix t
  obtain r t1 where b: "body t = (r, t1)" by (cases "body t")
  have k: "keeps_help h (and_then (ext (On_help_command_error cmd e)) (\<lambda>_ s2. (Inr VNone, s2)))" for e
    by (rule keeps_help_and_then) (rule assms(1), rule keeps_help_return)
  show "help_objs (snd (except_CommandError ext cmd body t)) h = help_objs t h
      \<and> help_command (the_bot (snd (except_CommandError ext cmd body t))) = help_command (the_bot t)"
  proof (cases "\<exists>n. r = Inl (CommandError n)")
    case True
    then obtain n where n: "r = Inl (CommandError n)" by blast
    obtain r2 t2 where a: "and_then (ext (On_help_command_error cmd (CommandError n))) (\<lambda>_ s2. (Inr VNone, s2)) t1 = (r2, t2)"
      by (cases "and_then (ext (On_help_command_error cmd (CommandError n))) (\<lambda>_ s2. (Inr VNone, s2)) t1")
    show ?thesis
      using n b a keeps_helpD [OF assms(2) b] keeps_helpD [OF k a]
      by (simp add: except_CommandError_def)
  next
    case False
    then have "except_CommandError ext cmd body t = (r, t1)"
      using b by (auto simp add: except_CommandError_def split: sum.splits error.splits)
    then show ?thesis using keeps_helpD [OF assms(2) b] by simp
  qed
qed

lemma keeps_help_render:
  assumes "\<And>c. receiver c = Some cmd \<Longrightarrow> keeps_help h (ext c)"
    and "\<And>f. keeps_help h f \<Longrightarrow> keeps_help h (wrap_callback f)"
  shows "keeps_help h (render_entity wrap_callback ext cmd entity)"
proof -
  have w: "keeps_help h (wrap_callback (ext c))" if "receiver c = Some cmd" for c
    by (rule assms(2) [OF assms(1) [OF that]])
  have "keeps_help h (wrap_callback (ext (Send_cog_help cmd c)))"
    "keeps_help h (wrap_callback (ext (Send_group_help cmd c)))"
    "keeps_help h (wrap_callback (ext (Send_command_help cmd c)))" for c
    by (rule w, simp add: receiver_def)+
  then show ?thesis
    unfolding keeps_help_def render_entity_def
    by (auto split: entity.splits)
qed

lemma help_copy_eq:
  "help_copy copy h s =
     (next_ref s,
      s\<lparr>help_objs := (help_objs s)(next_ref s := (copy (help_objs s h))\<lparr>help_context := Some This_context\<rparr>),
        next_ref := Suc (next_ref s)\<rparr>)"
  by (simp add: help_copy_def new_help_def Let_def)

text \<open>What the calls on the copy keep, \<open>send_help\<close> keeps after the copy is made.\<close>

lemma send_help_after_copy:
  assumes "help_command (the_bot s) = Some h"
    and "\<And>c. receiver c = Some (next_ref s) \<Longrightarrow> keeps_help a (ext c)"
    and "\<And>f. keeps_help a f \<Longrightarrow> keeps_help a (wrap_callback f)"
  shows "help_objs (snd (send_help wrap_callback ext copy args s)) a
           = help_objs (snd (help_copy copy h s)) a
       \<and> help_command (the_bot (snd (send_help wrap_callback ext copy args s))) = Some h"
proof -
  let ?cmd = "next_ref s"
  let ?s2 = "snd (help_copy copy h s)"
  have c: "help_copy copy h s = (?cmd, ?s2)"
    by (simp add: help_copy_eq)
  have b2: "help_command (the_bot ?s2) = Some h"
    using assms(1) by (simp add: help_copy_eq)
  have x: "keeps_help a (ext (Prepare_help_command ?cmd q))" "keeps_help a (ext (Get_bot_mapping ?cmd))"
    "keeps_help a (ext (On_help_command_error ?cmd e))" "keeps_help a (ext (Send_bot_help ?cmd m))" for q e m
    by (rule assms(2), simp add: receiver_def)+
  have e: "keeps_help a (except_CommandError ext ?cmd body)" if "keeps_help a body" for body
    by (rule keeps_help_except) (rule x, rule that)
  have r: "keeps_help a (render_entity wrap_callback ext ?cmd entity)" for entity
    by (rule keeps_help_render) (erule assms(2), erule assms(3))
  let ?bot = "and_then (ext (Prepare_help_command ?cmd None))
                    (\<lambda>_. and_then (ext (Get_bot_mapping ?cmd))
                      (\<lambda>mapping. except_CommandError ext ?cmd
                         (wrap_callback (ext (Send_bot_help ?cmd mapping)))))"
  have b: "keeps_help a ?bot"
    by (intro keeps_help_and_then x e assms(3))
  have n: "keeps_help a (and_then (ext (Prepare_help_command ?cmd (Some name)))
                                 (\<lambda>_. except_CommandError ext ?cmd
                                    (render_entity wrap_callback ext ?cmd entity)))" for name entity
    by (intro keeps_help_and_then x e r)
  obtain res s' where f: "send_help wrap_callback ext copy args s = (res, s')"
    by (cases "send_help wrap_callback ext copy args s")
  have "help_objs s' a = help_objs ?s2 a \<and> help_command (the_bot s') = help_command (the_bot ?s2)"
  proof (cases args)
    case Nil
    then have "?bot ?s2 = (res, s')"
      using f assms(1) by (simp add: send_help_def help_copy_eq)
    then show ?thesis using keeps_helpD [OF b] by blast
  next
    case (Cons entity0 rest)
    let ?entity = "resolve_entity ?s2 entity0"
    show ?thesis
    proof (cases "?entity = None_entity \<or> entity_qualified_name ?s2 ?entity = None")
      case True
      then have "s' = ?s2"
        using f assms(1) Cons by (auto simp add: send_help_def help_copy_eq Let_def split: if_splits)
      then show ?thesis by simp
    next
      case False
      then obtain name where nm: "entity_qualified_name ?s2 ?entity = Some name" by auto
      have "and_then (ext (Prepare_help_command ?cmd (Some name)))
              (\<lambda>_. except_CommandError ext ?cmd (render_entity wrap_callback ext ?cmd ?entity)) ?s2 = (res, s')"
        using f assms(1) Cons False nm by (simp add: send_help_def help_copy_eq Let_def)
      then show ?thesis using keeps_helpD [OF n] by blast
    qed
  qed
  then show ?thesis using b2 f by simp
qed

lemma send_help_calls_copy:
  assumes "\<forall>c. receiver c = Some (next_ref s) \<longrightarrow> ext c = ext' c"
  shows "send_help wrap_callback ext copy args s = send_help wrap_callback ext' copy args s"
proof -
  let ?cmd = "next_ref s"
  have x: "ext (Prepare_help_command ?cmd q) = ext' (Prepare_help_command ?cmd q)"
    "ext (Get_bot_mapping ?cmd) = ext' (Get_bot_mapping ?cmd)"
    "ext (On_help_command_error ?cmd e) = ext' (On_help_command_error ?cmd e)"
    "ext (Send_bot_help ?cmd m) = ext' (Send_bot_help ?cmd m)"
    "ext (Send_cog_help ?cmd k) = ext' (Send_cog_help ?cmd k)"
    "ext (Send_group_help ?cmd k) = ext' (Send_group_help ?cmd k)"
    "ext (Send_command_help ?cmd k) = ext' (Send_command_help ?cmd k)" for q e m k
    using assms by (simp_all add: receiver_def)
  have e: "except_CommandError ext ?cmd body = except_CommandError ext' ?cmd body" for body
    by (intro ext) (simp add: except_CommandError_def x split: prod.splits sum.splits error.splits)
  have r: "render_entity wrap_callback ext ?cmd entity = render_entity wrap_callback ext' ?cmd entity"
    for entity
    by (intro ext) (simp add: render_entity_def x split: entity.splits)
  show ?thesis
    by (simp add: send_help_def help_copy_eq x e r Let_def split: option.splits list.splits)
qed


text \<open>
  Claim C10. \<open>send_help\<close> works on a copy of the bot's help command: every call it makes
  is a call on the new object, so that what the handler does for calls on any other
  object, the bot's own included, makes no difference to \<open>send_help\<close>. When each method
  of a help command writes no help command but the one it is called on, and leaves
  \<^verbatim>\<open>bot.help_command\<close> alone, the attribute \<^verbatim>\<open>bot.help_command\<close> and the object it names,
  its context included, are after the call what they were before it. The context is
  set on the copy: when the methods write nothing, the copy holds it after the call.
\<close>

theorem send_help_keeps:
  assumes "help_command (the_bot s) = Some h" and "h < next_ref s"
  shows "((\<forall>c. receiver c = Some (next_ref s) \<longrightarrow> ext c = ext' c) \<longrightarrow>
            send_help wrap_callback ext copy args s = send_help wrap_callback ext' copy args s)
       \<and> ((\<forall>c a. receiver c \<noteq> Some a \<longrightarrow> keeps_help a (ext c))
            \<and> (\<forall>f a. keeps_help a f \<longrightarrow> keeps_help a (wrap_callback f)) \<longrightarrow>
            help_command (the_bot (snd (send_help wrap_callback ext copy args s))) = Some h
            \<and> help_objs (snd (send_help wrap_callback ext copy args s)) h = help_objs s h)
       \<and> ((\<forall>c. keeps_help (next_ref s) (ext c))
            \<and> (\<forall>f. keeps_help (next_ref s) f \<longrightarrow> keeps_help (next_ref s) (wrap_callback f)) \<longrightarrow>
            help_objs (snd (send_help wrap_callback ext copy args s)) (next_ref s)
              = (copy (help_objs s h))\<lparr>help_context := Some This_context\<rparr>)"
proof (intro conjI impI)
  assume "\<forall>c. receiver c = Some (next_ref s) \<longrightarrow> ext c = ext' c"
  then show "send_help wrap_callback ext copy args s = send_help wrap_callback ext' copy args s"
    by (rule send_help_calls_copy)
next
  assume a: "(\<forall>c a. receiver c \<noteq> Some a \<longrightarrow> keeps_help a (ext c))
            \<and> (\<forall>f a. keeps_help a f \<longrightarrow> keeps_help a (wrap_callback f))"
  have x: "keeps_help h (ext c)" if "receiver c = Some (next_ref s)" for c
    using a that assms(2) by simp
  have y: "keeps_help h (wrap_callback f)" if "keeps_help h f" for f
    using a that by simp
  have "help_objs (snd (send_help wrap_callback ext copy args s)) h
           = help_objs (snd (help_copy copy h s)) h
       \<and> help_command (the_bot (snd (send_help wrap_callback ext copy args s))) = Some h"
    by (rule send_help_after_copy [OF assms(1)]) (erule x, erule y)
  then show "help_command (the_bot (snd (send_help wrap_callback ext copy args s))) = Some h"
    and "help_objs (snd (send_help wrap_callback ext copy args s)) h = help_objs s h"
    using assms(2) by (simp_all add: help_copy_eq)
next
  assume a: "(\<forall>c. keeps_help (next_ref s) (ext c))
            \<and> (\<forall>f. keeps_help (next_ref s) f \<longrightarrow> keeps_help (next_ref s) (wrap_callback f))"
  have x: "keeps_help (next_ref s) (ext c)" for c
    using a by simp
  have y: "keeps_help (next_ref s) (wrap_callback f)" if "keeps_help (next_ref s) f" for f
    using a that by simp
  have "help_objs (snd (send_help wrap_callback ext copy args s)) (next_ref s)
           = help_objs (snd (help_copy copy h s)) (next_ref s)
       \<and> help_command (the_bot (snd (send_help wrap_callback ext copy args s))) = Some h"
    by (rule send_help_after_copy [OF assms(1)]) (rule x, erule y)
  then show "help_objs (snd (send_help wrap_callback ext copy args s)) (next_ref s)
              = (copy (help_objs s h))\<lparr>help_context := Some This_context\<rparr>"
    by (simp add: help_copy_eq)
qed

theorem send_help_keeps_witness:
  "help_command (the_bot sample_state) = Some 6
   \<and> 6 < next_ref sample_state
   \<and> send_help plain_wrap marking_ext same_settings [] sample_state
       = send_help plain_wrap (marking_only 13) same_settings [] sample_state
   \<and> help_command (the_bot (snd (send_help plain_wrap marking_ext same_settings [] sample_state))) = Some 6
   \<and> help_objs (snd (send_help plain_wrap marking_ext same_settings [] sample_state)) 6
       = \<lparr>help_context = Some (Other_context 0), settings = VInt 1\<rparr>
   \<and> help_objs (snd (send_help plain_wrap quiet_ext same_settings [] sample_state)) 13
       = \<lparr>help_context = Some This_context, settings = VInt 1\<rparr>"
proof -
  have h: "help_command (the_bot sample_state) = Some 6" "6 < next_ref sample_state"
    by (simp_all add: sample_state_def)
  have o: "help_objs sample_state 6 = \<lparr>help_context = Some (Other_context 0), settings = VInt 1\<rparr>"
    "next_ref sample_state = 13"
    by (simp_all add: sample_state_def)
  have e: "\<forall>c. receiver c = Some (next_ref sample_state) \<longrightarrow> marking_ext c = marking_only 13 c"
    by (simp add: o marking_only_def fun_eq_iff)
  have m: "\<forall>c a. receiver c \<noteq> Some a \<longrightarrow> keeps_help a (marking_ext c)"
    by (auto simp add: keeps_help_def marking_ext_def split: option.splits)
  have q: "\<forall>c. keeps_help (next_ref sample_state) (quiet_ext c)"
    by (simp add: keeps_help_def quiet_ext_def)
  have p: "\<forall>f a. keeps_help a f \<longrightarrow> keeps_help a (plain_wrap f)"
    by (simp add: plain_wrap_def)
  have 1: "send_help plain_wrap marking_ext same_settings [] sample_state
       = send_help plain_wrap (marking_only 13) same_settings [] sample_state"
    using send_help_keeps [OF h, where ext = marking_ext and ext' = "marking_only 13"
        and wrap_callback = plain_wrap and copy = same_settings and args = "[]"] e
    by blast
  have 2: "help_command (the_bot (snd (send_help plain_wrap marking_ext same_settings [] sample_state))) = Some 6
     \<and> help_objs (snd (send_help plain_wrap marking_ext same_settings [] sample_state)) 6
       = help_objs sample_state 6"
    using send_help_keeps [OF h, where ext = marking_ext and ext' = marking_ext
        and wrap_callback = plain_wrap and copy = same_settings and args = "[]"] m p
    by blast
  have 3: "help_objs (snd (send_help plain_wrap quiet_ext same_settings [] sample_state))
        (next_ref sample_state)
       = (same_settings (help_objs sample_state 6))\<lparr>help_context := Some This_context\<rparr>"
    using send_help_keeps [OF h, where ext = quiet_ext and ext' = quiet_ext
        and wrap_callback = plain_wrap and copy = same_settings and args = "[]"] q p
    by blast
  show ?thesis using h 1 2 3 by (simp add: o same_settings_def)
qed

end
